theory Spec2Isabelle
  imports Complex_Main "HOL-Library.Code_Target_Numeral"
begin

section \<open>Python values and exceptions\<close>

text \<open>
  The wrapper is Python: every raise is a value here. \<open>Exception\<close> carries the argument of
  \<^verbatim>\<open>raise Exception(res)\<close>; the others are the built-in exceptions the interpreter raises
  for \<^verbatim>\<open>None + str\<close>, a missing dictionary key, a division by zero, an index out of range,
  text that \<^verbatim>\<open>eval\<close> cannot read, and a failed COM call.
\<close>

datatype error =
    Exception string
  | TypeError
  | KeyError
  | ZeroDivisionError
  | IndexError
  | SyntaxError
  | ComError

text \<open>
  A Python float is written by what \<^verbatim>\<open>repr\<close> prints of it, which names it: a finite float by
  its sign and the digits of its shortest decimal, \<open>Finite neg m e\<close> being \<open>m\<close> times ten to
  the \<open>e\<close>, negated when \<open>neg\<close>, where \<open>m\<close> does not end in a zero (and \<open>e\<close> is 0 when \<open>m\<close> is);
  the infinities by their sign; and nan. A Python number is an int or a float.
\<close>

datatype pyfloat = Finite bool nat int | Inf bool | NaN

datatype pynum = PyInt int | PyFloat pyfloat

fun is_finite :: "pyfloat \<Rightarrow> bool" where
  "is_finite (Finite neg m e) = True"
| "is_finite (Inf neg) = False"
| "is_finite NaN = False"

text \<open>
  The mantissa of a float has no trailing zero. A term \<open>Finite neg m e\<close> whose mantissa has
  one is another way to write the float \<open>make_float neg m e\<close> below, which has none.
\<close>

fun float_wf :: "pyfloat \<Rightarrow> bool" where
  "float_wf (Finite neg m e) = (if m = 0 then e = 0 else \<not> 10 dvd m)"
| "float_wf (Inf neg) = True"
| "float_wf NaN = True"

text \<open>The float with the value of \<open>m\<close> times ten to the \<open>e\<close>: trailing zeros go to the exponent.\<close>

function strip10 :: "nat \<Rightarrow> int \<Rightarrow> nat \<times> int" where
  "strip10 m e = (if m \<noteq> 0 \<and> 10 dvd m then strip10 (m div 10) (e + 1) else (m, e))"
  by pat_completeness auto
termination
  by (relation "measure (\<lambda>(m, e). m)") auto

declare strip10.simps [simp del]

definition make_float :: "bool \<Rightarrow> nat \<Rightarrow> int \<Rightarrow> pyfloat" where
  "make_float neg m e =
     (if m = 0 then Finite neg 0 0 else (case strip10 m e of (m', e') \<Rightarrow> Finite neg m' e'))"

fun normal_float :: "pyfloat \<Rightarrow> pyfloat" where
  "normal_float (Finite neg m e) = make_float neg m e"
| "normal_float (Inf neg) = Inf neg"
| "normal_float NaN = NaN"

fun normal_num :: "pynum \<Rightarrow> pynum" where
  "normal_num (PyInt i) = PyInt i"
| "normal_num (PyFloat f) = PyFloat (normal_float f)"

text \<open>The values a decoded engine response can be.\<close>

datatype pyval =
    PNum pynum
  | PComplex real real
  | PStr string
  | PList "pyval list"
  | PTuple "pyval list"

text \<open>\<^verbatim>\<open>len(v)\<close>: defined on strings and sequences, a TypeError on numbers.\<close>

fun py_len :: "pyval \<Rightarrow> error + nat" where
  "py_len (PStr s) = Inr (length s)"
| "py_len (PList vs) = Inr (length vs)"
| "py_len (PTuple vs) = Inr (length vs)"
| "py_len (PNum n) = Inl TypeError"
| "py_len (PComplex a b) = Inl TypeError"

text \<open>\<^verbatim>\<open>v[0]\<close>, used only after \<^verbatim>\<open>len(v) == 1\<close>.\<close>

fun py_item0 :: "pyval \<Rightarrow> error + pyval" where
  "py_item0 (PStr (c # cs)) = Inr (PStr [c])"
| "py_item0 (PList (v # vs)) = Inr v"
| "py_item0 (PTuple (v # vs)) = Inr v"
| "py_item0 (PStr []) = Inl IndexError"
| "py_item0 (PList []) = Inl IndexError"
| "py_item0 (PTuple []) = Inl IndexError"
| "py_item0 (PNum n) = Inl TypeError"
| "py_item0 (PComplex a b) = Inl TypeError"

subsection \<open>Decimal text of an int\<close>

definition digit_char :: "nat \<Rightarrow> char" where
  "digit_char d = ''0123456789'' ! d"

function digits :: "nat \<Rightarrow> string" where
  "digits n = (if n < 10 then [digit_char n] else digits (n div 10) @ [digit_char (n mod 10)])"
  by pat_completeness auto
termination
  by (relation "measure (\<lambda>n. n)") auto

declare digits.simps [simp del]

text \<open>\<^verbatim>\<open>str(i)\<close> for a Python int.\<close>

definition str_int :: "int \<Rightarrow> string" where
  "str_int i = (if i < 0 then CHR ''-'' # digits (nat (- i)) else digits (nat i))"

text \<open>
  \<^verbatim>\<open>str(x)\<close> for a float, which is \<^verbatim>\<open>repr(x)\<close>. With the digits \<open>ds\<close> and the decimal point
  after the first \<open>decpt\<close> of them, the form is scientific when \<open>decpt \<le> -4\<close> or
  \<open>decpt > 16\<close>, with an exponent of at least two digits, and positional otherwise, the
  point always followed by a digit.
\<close>

definition exp_text :: "int \<Rightarrow> string" where
  "exp_text x =
     (if x < 0 then ''-'' else ''+'') @ (if \<bar>x\<bar> < 10 then ''0'' else []) @ digits (nat \<bar>x\<bar>)"

definition repr_finite :: "nat \<Rightarrow> int \<Rightarrow> string" where
  "repr_finite m e =
     (let ds = digits m; n = int (length ds); decpt = n + e
      in if m = 0 then ''0.0''
         else if decpt \<le> - 4 \<or> 16 < decpt
         then hd ds # (if 1 < n then CHR ''.'' # tl ds else []) @ ''e'' @ exp_text (decpt - 1)
         else if decpt \<le> 0
         then ''0.'' @ replicate (nat (- decpt)) CHR ''0'' @ ds
         else if decpt < n
         then take (nat decpt) ds @ ''.'' @ drop (nat decpt) ds
         else ds @ replicate (nat (decpt - n)) CHR ''0'' @ ''.0'')"

fun str_float :: "pyfloat \<Rightarrow> string" where
  "str_float (Finite neg m e) = (if neg then ''-'' else []) @ repr_finite m e"
| "str_float (Inf neg) = (if neg then ''-inf'' else ''inf'')"
| "str_float NaN = ''nan''"

text \<open>\<^verbatim>\<open>str(x)\<close> for a number.\<close>

fun str_num :: "pynum \<Rightarrow> string" where
  "str_num (PyInt i) = str_int i"
| "str_num (PyFloat f) = str_float f"

section \<open>The mode tables\<close>

text \<open>A doctype is given as a name or as a number: the keys of the tables are of both kinds.\<close>

datatype doctype = DName string | DCode int

definition DOCTYPE_MAPPING :: "string \<rightharpoonup> int" where
  "DOCTYPE_MAPPING = map_of
     [(''magnetics'', 1),
      (''electrostatics'', 2),
      (''heat'', 3),
      (''current'', 4)]"

definition DOCTYPE_PREFIX_MAPPING :: "doctype \<rightharpoonup> string" where
  "DOCTYPE_PREFIX_MAPPING = map_of
     [(DCode 0, ''m''),
      (DName ''magnetics'', ''m''),
      (DCode 1, ''e''),
      (DName ''electrostatics'', ''e''),
      (DCode 2, ''h''),
      (DName ''heat'', ''h''),
      (DCode 3, ''c''),
      (DName ''current'', ''c'')]"

definition PREFIX_DOCTYPE_MAPPING :: "string \<rightharpoonup> string" where
  "PREFIX_DOCTYPE_MAPPING = map_of
     [(''m'', ''magnetics''),
      (''e'', ''electrostatics''),
      (''h'', ''heat''),
      (''c'', ''current'')]"

section \<open>The session\<close>

text \<open>
  \<open>doctype_prefix\<close> is the class attribute, \<open>None\<close> until a mode is set. \<open>to_femm\<close> is the state
  of the engine behind the COM handle. The engine and Python's \<^verbatim>\<open>eval\<close> are not part of the
  wrapper: they are the fields of \<open>host\<close>, and every function takes the host as a parameter.
\<close>

record 'e FEMMSession =
  doctype_prefix :: "string option"
  to_femm :: 'e

record 'e host =
  mlab2femm :: "'e \<Rightarrow> string \<Rightarrow> (error + string) \<times> 'e"
  py_eval :: "string \<Rightarrow> error + pyval"

type_synonym ('a, 'e) result = "(error + 'a) \<times> 'e FEMMSession"

text \<open>Sequencing of two calls: an exception of the first ends the run.\<close>

definition and_then ::
  "('a, 'e) result \<Rightarrow> ('a \<Rightarrow> 'e FEMMSession \<Rightarrow> ('b, 'e) result) \<Rightarrow> ('b, 'e) result" where
  "and_then r f = (case r of (Inl e, s) \<Rightarrow> (Inl e, s) | (Inr v, s) \<Rightarrow> f v s)"

text \<open>\<^verbatim>\<open>self.doctype_prefix + string\<close>: \<^verbatim>\<open>None + str\<close> is a TypeError.\<close>

definition add_doctype_prefix :: "'e FEMMSession \<Rightarrow> string \<Rightarrow> error + string" where
  "add_doctype_prefix s string =
     (case doctype_prefix s of None \<Rightarrow> Inl TypeError | Some p \<Rightarrow> Inr (p @ string))"

definition call_femm ::
  "'e host \<Rightarrow> 'e FEMMSession \<Rightarrow> string \<Rightarrow> bool \<Rightarrow> (pyval, 'e) result" where
  "call_femm h s string add_prefix =
     (case (if add_prefix then add_doctype_prefix s string else Inr string) of
        Inl e \<Rightarrow> (Inl e, s)
      | Inr cmd \<Rightarrow>
          (case mlab2femm h (to_femm s) cmd of
             (Inl e, t) \<Rightarrow> (Inl e, s\<lparr>to_femm := t\<rparr>)
           | (Inr res, t) \<Rightarrow>
               (case (if length res = 0 then Inr (PList [])
                      else if hd res = CHR ''e'' then Inl (Exception res)
                      else py_eval h res) of
                  Inl e \<Rightarrow> (Inl e, s\<lparr>to_femm := t\<rparr>)
                | Inr v \<Rightarrow>
                    (case py_len v of
                       Inl e \<Rightarrow> (Inl e, s\<lparr>to_femm := t\<rparr>)
                     | Inr n \<Rightarrow>
                         (if n = 1 then (py_item0 v, s\<lparr>to_femm := t\<rparr>)
                          else (Inr v, s\<lparr>to_femm := t\<rparr>))))))"

subsection \<open>Argument encoding and path normalisation\<close>

datatype arg = Num pynum | Str string

text \<open>\<^verbatim>\<open>', '.join(items)\<close>\<close>

fun join :: "string list \<Rightarrow> string" where
  "join [] = []"
| "join [x] = x"
| "join (x # y # ys) = x @ '', '' @ join (y # ys)"

definition render_arg :: "arg \<Rightarrow> string" where
  "render_arg a = (case a of Str t \<Rightarrow> ''\"'' @ t @ ''\"'' | Num n \<Rightarrow> str_num n)"

definition parse_args :: "arg list \<Rightarrow> string" where
  "parse_args args = ''('' @ join (map render_arg args) @ '')''"

definition quote :: "string \<Rightarrow> string" where
  "quote string = ''\"'' @ string @ ''\"''"

text \<open>
  \<^verbatim>\<open>s.replace(old, new)\<close>: one pass from the left over non-overlapping occurrences. With an
  empty \<open>old\<close> Python puts \<open>new\<close> before every character and at the end.
\<close>

function replace_from :: "string \<Rightarrow> string \<Rightarrow> string \<Rightarrow> string" where
  "replace_from old new [] = []"
| "replace_from old new (c # cs) =
     (if old \<noteq> [] \<and> take (length old) (c # cs) = old
      then new @ replace_from old new (drop (length old) (c # cs))
      else c # replace_from old new cs)"
  by pat_completeness auto
termination
  by (relation "measure (\<lambda>(old, new, s). length s)") auto

definition replace :: "string \<Rightarrow> string \<Rightarrow> string \<Rightarrow> string" where
  "replace s old new =
     (if old = [] then new @ concat (map (\<lambda>c. c # new) s) else replace_from old new s)"

definition fix_path :: "string \<Rightarrow> string" where
  "fix_path path = replace (replace path [CHR 0x5C] ''/'') ''//'' ''/''"

subsection \<open>Commands with arguments, documents and modes\<close>

definition call_femm_with_args ::
  "'e host \<Rightarrow> 'e FEMMSession \<Rightarrow> string \<Rightarrow> arg list \<Rightarrow> bool \<Rightarrow> (pyval, 'e) result" where
  "call_femm_with_args h s command args add_prefix =
     (if add_prefix
      then (case add_doctype_prefix s command of
              Inl e \<Rightarrow> (Inl e, s)
            | Inr c \<Rightarrow> call_femm h s (c @ parse_args args) False)
      else call_femm h s (command @ parse_args args) False)"

text \<open>\<^verbatim>\<open>os.getcwd()\<close> is the parameter \<open>cwd\<close>.\<close>

definition set_current_directory :: "'e host \<Rightarrow> 'e FEMMSession \<Rightarrow> string \<Rightarrow> (pyval, 'e) result" where
  "set_current_directory h s cwd =
     call_femm h s (''setcurrentdirectory('' @ quote (fix_path cwd) @ '')'') False"

definition set_mode :: "'e FEMMSession \<Rightarrow> doctype \<Rightarrow> (unit, 'e) result" where
  "set_mode s doctype =
     (case DOCTYPE_PREFIX_MAPPING doctype of
        None \<Rightarrow> (Inl KeyError, s)
      | Some p \<Rightarrow> (Inr (), s\<lparr>doctype_prefix := Some p\<rparr>))"

definition mode :: "'e FEMMSession \<Rightarrow> error + string" where
  "mode s =
     (case doctype_prefix s of
        None \<Rightarrow> Inl KeyError
      | Some p \<Rightarrow> (case PREFIX_DOCTYPE_MAPPING p of None \<Rightarrow> Inl KeyError | Some n \<Rightarrow> Inr n))"

text \<open>
  \<^verbatim>\<open>mode = DOCTYPE_MAPPING[doctype] if isinstance(doctype, str) else doctype\<close>, then the
  command \<^verbatim>\<open>newdocument(mode)\<close>, then \<^verbatim>\<open>set_mode(mode)\<close>.
\<close>

definition new_document :: "'e host \<Rightarrow> 'e FEMMSession \<Rightarrow> doctype \<Rightarrow> (unit, 'e) result" where
  "new_document h s doctype =
     (case (case doctype of
              DName n \<Rightarrow> (case DOCTYPE_MAPPING n of None \<Rightarrow> Inl KeyError | Some m \<Rightarrow> Inr m)
            | DCode m \<Rightarrow> Inr m) of
        Inl e \<Rightarrow> (Inl e, s)
      | Inr m \<Rightarrow>
          and_then (call_femm h s (''newdocument('' @ str_int m @ '')'') False)
            (\<lambda>_ s'. set_mode s' (DCode m)))"

section \<open>The API classes\<close>

text \<open>
  \<open>mode_prefix\<close> is \<open>None\<close> in \<open>BaseAPI\<close>, \<open>'i'\<close> in \<open>PreprocessorAPI\<close> and \<open>'o'\<close> in
  \<open>PostProcessorAPI\<close>; an f-string prints \<open>None\<close> as the text \<open>None\<close>.
\<close>

definition add_mode_prefix :: "string option \<Rightarrow> string \<Rightarrow> string" where
  "add_mode_prefix mode_prefix string =
     (case mode_prefix of None \<Rightarrow> ''None'' | Some p \<Rightarrow> p) @ ''_'' @ string"

definition api_call_femm ::
  "string option \<Rightarrow> 'e host \<Rightarrow> 'e FEMMSession \<Rightarrow> string \<Rightarrow> bool \<Rightarrow> (pyval, 'e) result" where
  "api_call_femm mode_prefix h s string add_prefix =
     call_femm h s (add_mode_prefix mode_prefix string @ ''()'') add_prefix"

definition api_call_femm_with_args ::
  "string option \<Rightarrow> 'e host \<Rightarrow> 'e FEMMSession \<Rightarrow> string \<Rightarrow> arg list \<Rightarrow> (pyval, 'e) result" where
  "api_call_femm_with_args mode_prefix h s string args =
     call_femm_with_args h s (add_mode_prefix mode_prefix string) args True"

subsection \<open>The preprocessor: nodes, segments, polylines\<close>

definition pre_prefix :: "string option" where
  "pre_prefix = Some ''i''"

definition close_doc :: "'e host \<Rightarrow> 'e FEMMSession \<Rightarrow> (unit, 'e) result" where
  "close_doc h s = and_then (api_call_femm pre_prefix h s ''close'' True) (\<lambda>_ s'. (Inr (), s'))"

text \<open>
  The five \<open>delete_selected\<close> methods call \<open>_call_femm\<close> with its default, which does not ask
  for the doctype prefix.
\<close>

definition delete_selected :: "'e host \<Rightarrow> 'e FEMMSession \<Rightarrow> (unit, 'e) result" where
  "delete_selected h s =
     and_then (api_call_femm pre_prefix h s ''deleteselected'' False) (\<lambda>_ s'. (Inr (), s'))"

definition delete_selected_nodes :: "'e host \<Rightarrow> 'e FEMMSession \<Rightarrow> (unit, 'e) result" where
  "delete_selected_nodes h s =
     and_then (api_call_femm pre_prefix h s ''deleteselectednodes'' False) (\<lambda>_ s'. (Inr (), s'))"

definition delete_selected_labels :: "'e host \<Rightarrow> 'e FEMMSession \<Rightarrow> (unit, 'e) result" where
  "delete_selected_labels h s =
     and_then (api_call_femm pre_prefix h s ''deleteselectedlabels'' False) (\<lambda>_ s'. (Inr (), s'))"

definition delete_selected_segments :: "'e host \<Rightarrow> 'e FEMMSession \<Rightarrow> (unit, 'e) result" where
  "delete_selected_segments h s =
     and_then (api_call_femm pre_prefix h s ''deleteselectedsegments'' False) (\<lambda>_ s'. (Inr (), s'))"

definition delete_selected_arc_segments :: "'e host \<Rightarrow> 'e FEMMSession \<Rightarrow> (unit, 'e) result" where
  "delete_selected_arc_segments h s =
     and_then (api_call_femm pre_prefix h s ''deleteselectedarcsegments'' False)
       (\<lambda>_ s'. (Inr (), s'))"

text \<open>The zoom methods ask for it, as \<open>close\<close> does.\<close>

definition zoom_natural :: "'e host \<Rightarrow> 'e FEMMSession \<Rightarrow> (unit, 'e) result" where
  "zoom_natural h s =
     and_then (api_call_femm pre_prefix h s ''zoomnatural'' True) (\<lambda>_ s'. (Inr (), s'))"

type_synonym point = "pynum \<times> pynum"

definition add_node :: "'e host \<Rightarrow> 'e FEMMSession \<Rightarrow> pynum \<Rightarrow> pynum \<Rightarrow> (unit, 'e) result" where
  "add_node h s x y =
     and_then (api_call_femm_with_args pre_prefix h s ''addnode'' [Num x, Num y])
       (\<lambda>_ s'. (Inr (), s'))"

definition add_segment ::
  "'e host \<Rightarrow> 'e FEMMSession \<Rightarrow> pynum \<Rightarrow> pynum \<Rightarrow> pynum \<Rightarrow> pynum \<Rightarrow> (unit, 'e) result" where
  "add_segment h s x1 y1 x2 y2 =
     and_then (api_call_femm_with_args pre_prefix h s ''addsegment'' [Num x1, Num y1, Num x2, Num y2])
       (\<lambda>_ s'. (Inr (), s'))"

definition draw_line ::
  "'e host \<Rightarrow> 'e FEMMSession \<Rightarrow> pynum \<Rightarrow> pynum \<Rightarrow> pynum \<Rightarrow> pynum \<Rightarrow> (unit, 'e) result" where
  "draw_line h s x1 y1 x2 y2 =
     and_then (add_node h s x1 y1) (\<lambda>_ s1.
     and_then (add_node h s1 x2 y2) (\<lambda>_ s2.
     add_segment h s2 x1 y1 x2 y2))"

text \<open>
  The body of the loop of \<open>draw_polyline\<close> at index \<open>i\<close>, and the loop over
  \<^verbatim>\<open>enumerate(points_list)\<close>.
\<close>

definition draw_polyline_step ::
  "'e host \<Rightarrow> point list \<Rightarrow> 'e FEMMSession \<Rightarrow> nat \<times> point \<Rightarrow> (unit, 'e) result" where
  "draw_polyline_step h points_list s ip =
     (case ip of (i, current_point) \<Rightarrow>
        and_then (add_node h s (fst current_point) (snd current_point)) (\<lambda>_ s1.
          if 0 < i \<and> i < length points_list
          then (let previous_point = points_list ! (i - 1)
                in draw_line h s1 (fst previous_point) (snd previous_point)
                     (fst current_point) (snd current_point))
          else (Inr (), s1)))"

fun draw_polyline_loop ::
  "'e host \<Rightarrow> point list \<Rightarrow> 'e FEMMSession \<Rightarrow> (nat \<times> point) list \<Rightarrow> (unit, 'e) result" where
  "draw_polyline_loop h points_list s [] = (Inr (), s)"
| "draw_polyline_loop h points_list s (ip # rest) =
     and_then (draw_polyline_step h points_list s ip)
       (\<lambda>_ s'. draw_polyline_loop h points_list s' rest)"

definition draw_polyline :: "'e host \<Rightarrow> 'e FEMMSession \<Rightarrow> point list \<Rightarrow> (unit, 'e) result" where
  "draw_polyline h s points_list =
     draw_polyline_loop h points_list s (enumerate 0 points_list)"

subsection \<open>The polar pattern\<close>

text \<open>
  The arithmetic of \<^verbatim>\<open>numpy\<close> is done on the real values of the coordinates; a float that is
  not finite has none.
\<close>

fun float_val :: "pyfloat \<Rightarrow> real option" where
  "float_val (Finite neg m e) =
     Some ((if neg then - 1 else 1) * real m * (if 0 \<le> e then 10 ^ nat e else 1 / 10 ^ nat (- e)))"
| "float_val (Inf neg) = None"
| "float_val NaN = None"

fun num_val :: "pynum \<Rightarrow> real option" where
  "num_val (PyInt i) = Some (of_int i)"
| "num_val (PyFloat f) = float_val f"

text \<open>\<^verbatim>\<open>np.round(x, decimals=5)\<close>: scale, round half to even, scale back.\<close>

definition rint :: "real \<Rightarrow> int" where
  "rint y =
     (let f = \<lfloor>y\<rfloor>; d = y - of_int f
      in if d < 1 / 2 then f else if 1 / 2 < d then f + 1 else if even f then f else f + 1)"

definition np_round5 :: "real \<Rightarrow> pyfloat" where
  "np_round5 x = (let k = rint (x * 100000) in make_float (k < 0) (nat \<bar>k\<bar>) (- 5))"

text \<open>
  One point of a copy: minus the center, times the rotation matrix, plus the center, rounded;
  \<^verbatim>\<open>tolist()\<close> gives Python floats. A coordinate that is not finite gives coordinates that
  are not finite, taken here as nan.
\<close>

definition rotate_point :: "real \<Rightarrow> point \<Rightarrow> point \<Rightarrow> point" where
  "rotate_point pattern_angle center point =
     (case (num_val (fst point), num_val (snd point), num_val (fst center), num_val (snd center)) of
        (Some px, Some py, Some cx, Some cy) \<Rightarrow>
          (let x = px - cx;
               y = py - cy;
               rx = cos pattern_angle * x + (- sin pattern_angle) * y;
               ry = sin pattern_angle * x + cos pattern_angle * y
           in (PyFloat (np_round5 (rx + cx)), PyFloat (np_round5 (ry + cy))))
      | _ \<Rightarrow> (PyFloat NaN, PyFloat NaN))"

text \<open>
  The four list comprehensions. \<^verbatim>\<open>np.array(center)\<close> with \<open>center = None\<close> raises a TypeError
  at the first subtraction, so only when there is a point.
\<close>

definition rotate_points :: "real \<Rightarrow> point option \<Rightarrow> point list \<Rightarrow> error + point list" where
  "rotate_points pattern_angle center points =
     (case points of
        [] \<Rightarrow> Inr []
      | _ # _ \<Rightarrow>
          (case center of
             None \<Rightarrow> Inl TypeError
           | Some c \<Rightarrow> Inr (map (rotate_point pattern_angle c) points)))"

text \<open>The loop \<^verbatim>\<open>for i in range(repeat)\<close>, with \<open>ret\<close> the list built so far.\<close>

fun pattern_loop ::
  "'e host \<Rightarrow> point list \<Rightarrow> point option \<Rightarrow> real \<Rightarrow> point list list \<Rightarrow> 'e FEMMSession \<Rightarrow>
   nat list \<Rightarrow> (point list list, 'e) result" where
  "pattern_loop h points center change_in_angle ret s [] = (Inr ret, s)"
| "pattern_loop h points center change_in_angle ret s (i # rest) =
     (if i = 0
      then and_then (draw_polyline h s points)
             (\<lambda>_ s'. pattern_loop h points center change_in_angle ret s' rest)
      else (case rotate_points (change_in_angle * real i) center points of
              Inl e \<Rightarrow> (Inl e, s)
            | Inr new_points \<Rightarrow>
                and_then (draw_polyline h s new_points)
                  (\<lambda>_ s'. pattern_loop h points center change_in_angle (ret @ [new_points]) s' rest)))"

text \<open>
  \<open>repeat\<close> is \<open>None\<close> by default: dividing by \<open>None\<close> is a TypeError, dividing the float
  \<^verbatim>\<open>2 * np.pi\<close> by the int 0 a ZeroDivisionError. \<^verbatim>\<open>range(repeat)\<close> is empty for a negative
  \<open>repeat\<close>.
\<close>

definition draw_polyline_pattern ::
  "'e host \<Rightarrow> 'e FEMMSession \<Rightarrow> point list \<Rightarrow> point option \<Rightarrow> int option \<Rightarrow>
   (point list list, 'e) result" where
  "draw_polyline_pattern h s points center repeat =
     (case repeat of
        None \<Rightarrow> (Inl TypeError, s)
      | Some n \<Rightarrow>
          (if n = 0 then (Inl ZeroDivisionError, s)
           else pattern_loop h points center ((2 * pi) / of_int n) [points] s [0..<nat n]))"

section \<open>A host for running the wrapper\<close>

text \<open>
  An engine that records every command it receives and answers with a fixed text; the
  evaluator reads no text at all.
\<close>

definition recording_host :: "string \<Rightarrow> string list host" where
  "recording_host reply =
     \<lparr>mlab2femm = (\<lambda>log cmd. (Inr reply, log @ [cmd])),
      py_eval = (\<lambda>_. Inl SyntaxError)\<rparr>"

text \<open>The same engine with an evaluator that reads every text as the value \<open>v\<close>.\<close>

definition reading_host :: "string \<Rightarrow> pyval \<Rightarrow> string list host" where
  "reading_host reply v = (recording_host reply)\<lparr>py_eval := (\<lambda>_. Inr v)\<rparr>"

definition fresh_session :: "string list FEMMSession" where
  "fresh_session = \<lparr>doctype_prefix = None, to_femm = []\<rparr>"

section \<open>Properties of paths\<close>

definition is_sep :: "char \<Rightarrow> bool" where
  "is_sep c = (c = CHR ''/'' \<or> c = CHR 0x5C)"

text \<open>Two slashes in a row somewhere in the text.\<close>

fun double_slash :: "string \<Rightarrow> bool" where
  "double_slash (a # b # cs) = ((a = CHR ''/'' \<and> b = CHR ''/'') \<or> double_slash (b # cs))"
| "double_slash _ = False"

text \<open>Three slashes in a row, and three separators (slashes or backslashes) in a row.\<close>

fun triple_slash :: "string \<Rightarrow> bool" where
  "triple_slash (a # b # c # cs) =
     ((a = CHR ''/'' \<and> b = CHR ''/'' \<and> c = CHR ''/'') \<or> triple_slash (b # c # cs))"
| "triple_slash _ = False"

fun triple_sep :: "string \<Rightarrow> bool" where
  "triple_sep (a # b # c # cs) = ((is_sep a \<and> is_sep b \<and> is_sep c) \<or> triple_sep (b # c # cs))"
| "triple_sep _ = False"

section \<open>The literal grammar of the engine\<close>

text \<open>
  The engine reads the argument list with its own literal grammar; that code is the
  engine's and is not in the repository. The reader below follows the call syntax of the
  specification: a parenthesised list, items joined by a comma and a space, a text item
  between double quotes with no escapes, a number in decimal.
\<close>

definition is_digit :: "char \<Rightarrow> bool" where
  "is_digit c = (c \<in> set ''0123456789'')"

definition digit_val :: "char \<Rightarrow> nat" where
  "digit_val c = of_char c - 48"

definition is_numchar :: "char \<Rightarrow> bool" where
  "is_numchar c = (is_digit c \<or> c \<in> set ''-+.e'')"

definition digits_val :: "string \<Rightarrow> nat" where
  "digits_val ds = foldl (\<lambda>n c. 10 * n + digit_val c) 0 ds"

text \<open>
  Modelled from the spec: reading a number in decimal, which the engine's grammar does and
  the repository does not contain. A numeral is an optional minus sign, digits, then
  optionally a point with digits after it, then optionally \<open>e\<close> with a signed exponent.
  Digits alone are an int; with a point or an exponent the numeral is a float, the one whose
  decimal it is. Names such as \<open>inf\<close> and \<open>nan\<close> are not numerals.
\<close>

definition read_nat :: "string \<Rightarrow> nat option" where
  "read_nat ds = (if ds = [] \<or> \<not> list_all is_digit ds then None else Some (digits_val ds))"

definition read_frac :: "string \<Rightarrow> string option" where
  "read_frac fp =
     (case fp of
        [] \<Rightarrow> Some []
      | c # fr \<Rightarrow> if list_all is_digit fr then Some fr else None)"

definition read_exp :: "string \<Rightarrow> int option" where
  "read_exp ex =
     (case ex of
        [] \<Rightarrow> Some 0
      | c # rest \<Rightarrow>
          (case rest of
             [] \<Rightarrow> None
           | s # ds \<Rightarrow>
               if s = CHR ''-'' then map_option (\<lambda>n. - int n) (read_nat ds)
               else if s = CHR ''+'' then map_option int (read_nat ds)
               else map_option int (read_nat rest)))"

definition read_unsigned :: "bool \<Rightarrow> string \<Rightarrow> pynum option" where
  "read_unsigned neg body =
     (let mant = takeWhile (\<lambda>c. c \<noteq> CHR ''e'') body;
          ex = dropWhile (\<lambda>c. c \<noteq> CHR ''e'') body;
          ip = takeWhile (\<lambda>c. c \<noteq> CHR ''.'') mant;
          fp = dropWhile (\<lambda>c. c \<noteq> CHR ''.'') mant
      in if ex = [] \<and> fp = []
         then map_option (\<lambda>n. PyInt (if neg then - int n else int n)) (read_nat ip)
         else (case (read_nat ip, read_frac fp, read_exp ex) of
                 (Some i, Some fr, Some x) \<Rightarrow>
                   Some (PyFloat (make_float neg (digits_val (ip @ fr)) (x - int (length fr))))
               | _ \<Rightarrow> None))"

definition read_number :: "string \<Rightarrow> pynum option" where
  "read_number tok =
     (if tok \<noteq> [] \<and> hd tok = CHR ''-'' then read_unsigned True (tl tok)
      else read_unsigned False tok)"

text \<open>
  Modelled from the spec: the states and the step of an automaton for the engine's argument
  list, which is missing from the repository. \<open>acc\<close> holds the items read so far, \<open>buf\<close> the
  characters of the item being read.
\<close>

datatype lit_state =
    Start
  | Open
  | Next "arg list"
  | InStr "arg list" string
  | InNum "arg list" string
  | After "arg list"
  | Sep "arg list"
  | Done "arg list"
  | Fail

definition begin_item :: "arg list \<Rightarrow> char \<Rightarrow> lit_state" where
  "begin_item acc c =
     (if c = CHR 0x22 then InStr acc []
      else if is_numchar c then InNum acc [c]
      else Fail)"

definition end_item :: "arg list \<Rightarrow> char \<Rightarrow> lit_state" where
  "end_item acc c =
     (if c = CHR '','' then Sep acc
      else if c = CHR '')'' then Done acc
      else Fail)"

fun lit_step :: "lit_state \<Rightarrow> char \<Rightarrow> lit_state" where
  "lit_step Start c = (if c = CHR ''('' then Open else Fail)"
| "lit_step Open c = (if c = CHR '')'' then Done [] else begin_item [] c)"
| "lit_step (Next acc) c = begin_item acc c"
| "lit_step (InStr acc buf) c =
     (if c = CHR 0x22 then After (acc @ [Str buf]) else InStr acc (buf @ [c]))"
| "lit_step (InNum acc buf) c =
     (if is_numchar c then InNum acc (buf @ [c])
      else (case read_number buf of
              None \<Rightarrow> Fail
            | Some n \<Rightarrow> end_item (acc @ [Num n]) c))"
| "lit_step (After acc) c = end_item acc c"
| "lit_step (Sep acc) c = (if c = CHR '' '' then Next acc else Fail)"
| "lit_step (Done acc) c = Fail"
| "lit_step Fail c = Fail"

text \<open>
  Modelled from the spec: parsing a text with the engine's literal grammar, missing from the
  repository. The automaton runs over the whole text and answers only when it stops in
  \<open>Done\<close>.
\<close>

definition read_literal_args :: "string \<Rightarrow> arg list option" where
  "read_literal_args text =
     (case foldl lit_step Start text of Done acc \<Rightarrow> Some acc | _ \<Rightarrow> None)"

text \<open>
  The arguments of the round trip: texts without a double quote, ints, and finite floats.
\<close>

fun supported :: "arg \<Rightarrow> bool" where
  "supported (Str t) = (CHR 0x22 \<notin> set t)"
| "supported (Num (PyInt i)) = True"
| "supported (Num (PyFloat f)) = is_finite f"

text \<open>
  An argument with its float written without a trailing zero in the mantissa, and the
  arguments that are written so.
\<close>

fun normal :: "arg \<Rightarrow> arg" where
  "normal (Str t) = Str t"
| "normal (Num n) = Num (normal_num n)"

fun written_normal :: "arg \<Rightarrow> bool" where
  "written_normal (Str t) = True"
| "written_normal (Num (PyInt i)) = True"
| "written_normal (Num (PyFloat f)) = float_wf f"

section \<open>Modes\<close>

lemma set_mode_name_code:
  "set_mode s (DName ''magnetics'') = set_mode s (DCode 0)"
  "set_mode s (DName ''electrostatics'') = set_mode s (DCode 1)"
  "set_mode s (DName ''heat'') = set_mode s (DCode 2)"
  "set_mode s (DName ''current'') = set_mode s (DCode 3)"
  by (simp_all add: set_mode_def DOCTYPE_PREFIX_MAPPING_def)

lemma str_int_small:
  "str_int 0 = ''0''" "str_int 1 = ''1''" "str_int 2 = ''2''" "str_int 3 = ''3''" "str_int 4 = ''4''"
  by (simp_all add: str_int_def digits.simps digit_char_def)

lemma call_femm_recording_empty:
  "call_femm (recording_host []) s cmd False = (Inr (PList []), s\<lparr>to_femm := to_femm s @ [cmd]\<rparr>)"
  by (simp add: call_femm_def recording_host_def)

text \<open>
  C1. Setting the mode by name and by the ordinal code (magnetics = 0) should give the same
  prefix. \<open>set_mode\<close> alone does (\<open>set_mode_name_code\<close>), but a document opened by name goes
  through \<open>DOCTYPE_MAPPING\<close>, which numbers the modes from 1: \<open>new_document\<close> with the name
  \<open>magnetics\<close> sends \<open>newdocument(1)\<close> and leaves the prefix \<open>e\<close>, with the code 0 it sends
  \<open>newdocument(0)\<close> and leaves the prefix \<open>m\<close>; with the name \<open>current\<close> it sends
  \<open>newdocument(4)\<close> and then raises a KeyError.
\<close>

theorem new_document_name_and_code_differ:
  "new_document (recording_host []) fresh_session (DName ''magnetics'')
     = (Inr (), \<lparr>doctype_prefix = Some ''e'', to_femm = [''newdocument(1)'']\<rparr>)
   \<and> new_document (recording_host []) fresh_session (DCode 0)
     = (Inr (), \<lparr>doctype_prefix = Some ''m'', to_femm = [''newdocument(0)'']\<rparr>)
   \<and> new_document (recording_host []) fresh_session (DName ''current'')
     = (Inl KeyError, \<lparr>doctype_prefix = None, to_femm = [''newdocument(4)'']\<rparr>)"
  by (simp add: new_document_def DOCTYPE_MAPPING_def call_femm_recording_empty and_then_def
      set_mode_def DOCTYPE_PREFIX_MAPPING_def str_int_small fresh_session_def)

text \<open>
  C9. For each of the four names, \<open>set_mode\<close> with the name followed by reading \<open>mode\<close> gives
  the name back.
\<close>

theorem set_mode_then_mode:
  "fst (and_then (set_mode s (DName ''magnetics'')) (\<lambda>_ s'. (mode s', s'))) = Inr ''magnetics''
   \<and> fst (and_then (set_mode s (DName ''electrostatics'')) (\<lambda>_ s'. (mode s', s'))) = Inr ''electrostatics''
   \<and> fst (and_then (set_mode s (DName ''heat'')) (\<lambda>_ s'. (mode s', s'))) = Inr ''heat''
   \<and> fst (and_then (set_mode s (DName ''current'')) (\<lambda>_ s'. (mode s', s'))) = Inr ''current''"
  by (simp add: set_mode_def mode_def and_then_def DOCTYPE_PREFIX_MAPPING_def
      PREFIX_DOCTYPE_MAPPING_def)

section \<open>The command channel\<close>

text \<open>
  A command that asks for the doctype prefix, submitted while no mode is set, fails and
  nothing reaches the engine: the session, with the state of the engine in it, is returned as
  it was. This holds for \<open>call_femm\<close> with the prefix asked for, for \<open>call_femm_with_args\<close>, and
  for the entry points of the API classes when they ask for it. The exception is the
  TypeError of \<^verbatim>\<open>None + string\<close>.
\<close>

lemma prefixed_command_without_mode:
  assumes "doctype_prefix s = None"
  shows "call_femm h s string True = (Inl TypeError, s)
       \<and> call_femm_with_args h s command args True = (Inl TypeError, s)
       \<and> api_call_femm mode_prefix h s string True = (Inl TypeError, s)
       \<and> api_call_femm_with_args mode_prefix h s string args = (Inl TypeError, s)"
  using assms
  by (simp add: call_femm_def call_femm_with_args_def api_call_femm_def
      api_call_femm_with_args_def add_doctype_prefix_def)

lemma prefixed_command_fresh:
  "call_femm (recording_host []) fresh_session ''i_close()'' True
       = (Inl TypeError, \<lparr>doctype_prefix = None, to_femm = []\<rparr>)
   \<and> api_call_femm_with_args (Some ''i'') (recording_host []) fresh_session ''addnode''
         [Num (PyInt 1), Num (PyInt 2)]
       = (Inl TypeError, \<lparr>doctype_prefix = None, to_femm = []\<rparr>)"
proof -
  have none: "doctype_prefix fresh_session = None"
    by (simp add: fresh_session_def)
  from prefixed_command_without_mode [OF none] show ?thesis
    by (simp add: fresh_session_def)
qed

text \<open>
  C4. A command of the preprocessor submitted before any mode is set should fail, and no
  text without the letter of the mode should reach the engine. \<open>close\<close> and the zoom methods
  do fail and send nothing. The five \<open>delete_selected\<close> methods do not ask for the doctype
  prefix: on a fresh session each returns normally and the engine has received
  \<open>i_deleteselected()\<close> and its likes, with no letter of any mode.
\<close>

theorem delete_selected_without_mode:
  "delete_selected (recording_host []) fresh_session
     = (Inr (), \<lparr>doctype_prefix = None, to_femm = [''i_deleteselected()'']\<rparr>)
   \<and> delete_selected_nodes (recording_host []) fresh_session
     = (Inr (), \<lparr>doctype_prefix = None, to_femm = [''i_deleteselectednodes()'']\<rparr>)
   \<and> delete_selected_labels (recording_host []) fresh_session
     = (Inr (), \<lparr>doctype_prefix = None, to_femm = [''i_deleteselectedlabels()'']\<rparr>)
   \<and> delete_selected_segments (recording_host []) fresh_session
     = (Inr (), \<lparr>doctype_prefix = None, to_femm = [''i_deleteselectedsegments()'']\<rparr>)
   \<and> delete_selected_arc_segments (recording_host []) fresh_session
     = (Inr (), \<lparr>doctype_prefix = None, to_femm = [''i_deleteselectedarcsegments()'']\<rparr>)
   \<and> close_doc (recording_host []) fresh_session
     = (Inl TypeError, \<lparr>doctype_prefix = None, to_femm = []\<rparr>)
   \<and> zoom_natural (recording_host []) fresh_session
     = (Inl TypeError, \<lparr>doctype_prefix = None, to_femm = []\<rparr>)"
proof -
  have sent: "api_call_femm pre_prefix (recording_host []) fresh_session name False
      = (Inr (PList []), \<lparr>doctype_prefix = None, to_femm = [''i_'' @ name @ ''()'']\<rparr>)" for name
    by (simp add: api_call_femm_def add_mode_prefix_def pre_prefix_def
        call_femm_recording_empty fresh_session_def)
  have none: "doctype_prefix fresh_session = None"
    by (simp add: fresh_session_def)
  have refused: "api_call_femm pre_prefix (recording_host []) fresh_session name True
      = (Inl TypeError, \<lparr>doctype_prefix = None, to_femm = []\<rparr>)" for name
    using prefixed_command_without_mode [OF none, of "recording_host []" _ _ _ pre_prefix]
    by (simp add: api_call_femm_def fresh_session_def)
  show ?thesis
    by (simp add: delete_selected_def delete_selected_nodes_def delete_selected_labels_def
        delete_selected_segments_def delete_selected_arc_segments_def close_doc_def
        zoom_natural_def sent refused and_then_def)
qed

text \<open>
  C2 as the specification has it: the exception carries the text after the first character.
  It carries the whole response. The engine below answers \<open>error\<close>.
\<close>

theorem error_detail_counterexample:
  "mlab2femm (recording_host ''error'') (to_femm fresh_session) ''x'' = (Inr (CHR ''e'' # ''rror''), [''x''])
   \<and> fst (call_femm (recording_host ''error'') fresh_session ''x'' False) \<noteq> Inl (Exception ''rror'')
   \<and> fst (call_femm (recording_host ''error'') fresh_session ''x'' False) = Inl (Exception ''error'')"
  by (simp add: call_femm_def recording_host_def fresh_session_def)

text \<open>
  C2, amended. When the response begins with \<open>e\<close>, the call raises an Exception that carries
  the whole response text, first character included, whatever follows it; no value is
  returned. \<open>cmd\<close> is the text sent: the command, after the doctype prefix when it is asked
  for.
\<close>

theorem error_response_raises:
  assumes "(if add_prefix then add_doctype_prefix s string else Inr string) = Inr cmd"
    and "mlab2femm h (to_femm s) cmd = (Inr (CHR ''e'' # rest), t)"
  shows "call_femm h s string add_prefix = (Inl (Exception (CHR ''e'' # rest)), s\<lparr>to_femm := t\<rparr>)"
  using assms by (simp add: call_femm_def)

theorem error_response_raises_witness:
  "(if False then add_doctype_prefix fresh_session ''x'' else Inr ''x'') = Inr ''x''
   \<and> mlab2femm (recording_host ''e[1]'') (to_femm fresh_session) ''x'' = (Inr (CHR ''e'' # ''[1]''), [''x''])
   \<and> call_femm (recording_host ''e[1]'') fresh_session ''x'' False
       = (Inl (Exception ''e[1]''), \<lparr>doctype_prefix = None, to_femm = [''x'']\<rparr>)"
proof -
  have a: "(if False then add_doctype_prefix fresh_session ''x'' else Inr ''x'') = Inr ''x''"
    by simp
  have b: "mlab2femm (recording_host ''e[1]'') (to_femm fresh_session) ''x''
             = (Inr (CHR ''e'' # ''[1]''), [''x''])"
    by (simp add: recording_host_def fresh_session_def)
  from error_response_raises [OF a b] a b show ?thesis
    by (simp add: fresh_session_def)
qed

text \<open>
  C3 as the specification has it: a payload with exactly one literal value decodes to that
  value. The payload \<open>5\<close> is one literal value; \<^verbatim>\<open>eval\<close> reads it as the number 5, which is
  not a sequence, and \<^verbatim>\<open>len\<close> of it raises a TypeError.
\<close>

theorem bare_number_counterexample:
  "mlab2femm (reading_host ''5'' (PNum (PyInt 5))) (to_femm fresh_session) ''x'' = (Inr ''5'', [''x''])
   \<and> py_eval (reading_host ''5'' (PNum (PyInt 5))) ''5'' = Inr (PNum (PyInt 5))
   \<and> fst (call_femm (reading_host ''5'' (PNum (PyInt 5))) fresh_session ''x'' False)
       \<noteq> Inr (PNum (PyInt 5))
   \<and> fst (call_femm (reading_host ''5'' (PNum (PyInt 5))) fresh_session ''x'' False)
       = Inl TypeError"
  by (simp add: call_femm_def reading_host_def recording_host_def fresh_session_def)

text \<open>
  C3, amended. For a response that is not an error: an empty text gives the empty list.
  Otherwise the text goes to \<^verbatim>\<open>eval\<close>, and the result depends on what \<^verbatim>\<open>eval\<close> reads. A list
  or a tuple of exactly one value gives that value. A list or a tuple of any other length,
  so of \<open>k > 1\<close> values, is returned as it was read: the same values, of the same number, in
  the same order. A text value is returned as it is. A bare number, real or complex, is not
  a sequence and gives a TypeError. An error of \<^verbatim>\<open>eval\<close> is the error of the call.
\<close>

theorem call_femm_decodes:
  assumes "(if add_prefix then add_doctype_prefix s string else Inr string) = Inr cmd"
    and "mlab2femm h (to_femm s) cmd = (Inr res, t)"
  shows "(res = [] \<longrightarrow> call_femm h s string add_prefix = (Inr (PList []), s\<lparr>to_femm := t\<rparr>))
       \<and> (res \<noteq> [] \<and> hd res \<noteq> CHR ''e'' \<longrightarrow>
            (py_eval h res = Inr (PList [v]) \<or> py_eval h res = Inr (PTuple [v])
              \<longrightarrow> call_femm h s string add_prefix = (Inr v, s\<lparr>to_femm := t\<rparr>))
          \<and> (py_eval h res = Inr (PList vs) \<and> length vs \<noteq> 1
              \<longrightarrow> call_femm h s string add_prefix = (Inr (PList vs), s\<lparr>to_femm := t\<rparr>))
          \<and> (py_eval h res = Inr (PTuple vs) \<and> length vs \<noteq> 1
              \<longrightarrow> call_femm h s string add_prefix = (Inr (PTuple vs), s\<lparr>to_femm := t\<rparr>))
          \<and> (py_eval h res = Inr (PStr sv)
              \<longrightarrow> call_femm h s string add_prefix = (Inr (PStr sv), s\<lparr>to_femm := t\<rparr>))
          \<and> (py_eval h res = Inr (PNum n) \<or> py_eval h res = Inr (PComplex a b)
              \<longrightarrow> call_femm h s string add_prefix = (Inl TypeError, s\<lparr>to_femm := t\<rparr>))
          \<and> (py_eval h res = Inl err
              \<longrightarrow> call_femm h s string add_prefix = (Inl err, s\<lparr>to_femm := t\<rparr>)))"
proof -
  have str: "py_len (PStr sv) = Inr 1 \<Longrightarrow> py_item0 (PStr sv) = Inr (PStr sv)"
    by (cases sv) auto
  from assms str show ?thesis
    by (auto simp add: call_femm_def)
qed

theorem call_femm_decodes_witness:
  "call_femm (recording_host []) fresh_session ''x'' False
     = (Inr (PList []), \<lparr>doctype_prefix = None, to_femm = [''x'']\<rparr>)
   \<and> call_femm (reading_host ''[5]'' (PList [PNum (PyInt 5)])) fresh_session ''x'' False
     = (Inr (PNum (PyInt 5)), \<lparr>doctype_prefix = None, to_femm = [''x'']\<rparr>)
   \<and> call_femm (reading_host ''[1,2]'' (PList [PNum (PyInt 1), PNum (PyInt 2)])) fresh_session ''x'' False
     = (Inr (PList [PNum (PyInt 1), PNum (PyInt 2)]), \<lparr>doctype_prefix = None, to_femm = [''x'']\<rparr>)
   \<and> call_femm (reading_host ''(1,2)'' (PTuple [PNum (PyInt 1), PNum (PyInt 2)])) fresh_session ''x'' False
     = (Inr (PTuple [PNum (PyInt 1), PNum (PyInt 2)]), \<lparr>doctype_prefix = None, to_femm = [''x'']\<rparr>)
   \<and> call_femm (reading_host ''5'' (PNum (PyInt 5))) fresh_session ''x'' False
     = (Inl TypeError, \<lparr>doctype_prefix = None, to_femm = [''x'']\<rparr>)
   \<and> call_femm (recording_host ''[1,'') fresh_session ''x'' False
     = (Inl SyntaxError, \<lparr>doctype_prefix = None, to_femm = [''x'']\<rparr>)"
proof -
  have a: "(if False then add_doctype_prefix fresh_session ''x'' else Inr ''x'') = Inr ''x''"
    by simp
  have b: "mlab2femm (recording_host r) (to_femm fresh_session) ''x'' = (Inr r, [''x''])"
    "mlab2femm (reading_host r v) (to_femm fresh_session) ''x'' = (Inr r, [''x''])" for r v
    by (simp_all add: recording_host_def reading_host_def fresh_session_def)
  have e: "py_eval (reading_host r v) r = Inr v" "py_eval (recording_host r) r = Inl SyntaxError"
    for r v
    by (simp_all add: recording_host_def reading_host_def)
  have u: "fresh_session\<lparr>to_femm := [''x'']\<rparr> = \<lparr>doctype_prefix = None, to_femm = [''x'']\<rparr>"
    by (simp add: fresh_session_def)
  from call_femm_decodes [OF a b(1), of "[]"] have c0:
    "call_femm (recording_host []) fresh_session ''x'' False
       = (Inr (PList []), \<lparr>doctype_prefix = None, to_femm = [''x'']\<rparr>)"
    by (simp add: u)
  from call_femm_decodes [OF a b(2), of "''[5]''" "PList [PNum (PyInt 5)]" "PNum (PyInt 5)"]
  have c1:
    "call_femm (reading_host ''[5]'' (PList [PNum (PyInt 5)])) fresh_session ''x'' False
       = (Inr (PNum (PyInt 5)), \<lparr>doctype_prefix = None, to_femm = [''x'']\<rparr>)"
    by (simp add: u e)
  from call_femm_decodes [OF a b(2), of "''[1,2]''" "PList [PNum (PyInt 1), PNum (PyInt 2)]"
      _ "[PNum (PyInt 1), PNum (PyInt 2)]"]
  have c2:
    "call_femm (reading_host ''[1,2]'' (PList [PNum (PyInt 1), PNum (PyInt 2)])) fresh_session ''x'' False
       = (Inr (PList [PNum (PyInt 1), PNum (PyInt 2)]), \<lparr>doctype_prefix = None, to_femm = [''x'']\<rparr>)"
    by (simp add: u e)
  from call_femm_decodes [OF a b(2), of "''(1,2)''" "PTuple [PNum (PyInt 1), PNum (PyInt 2)]"
      _ "[PNum (PyInt 1), PNum (PyInt 2)]"]
  have c3:
    "call_femm (reading_host ''(1,2)'' (PTuple [PNum (PyInt 1), PNum (PyInt 2)])) fresh_session ''x'' False
       = (Inr (PTuple [PNum (PyInt 1), PNum (PyInt 2)]), \<lparr>doctype_prefix = None, to_femm = [''x'']\<rparr>)"
    by (simp add: u e)
  from call_femm_decodes [OF a b(2), of "''5''" "PNum (PyInt 5)" _ _ _ "PyInt 5"]
  have c4:
    "call_femm (reading_host ''5'' (PNum (PyInt 5))) fresh_session ''x'' False
       = (Inl TypeError, \<lparr>doctype_prefix = None, to_femm = [''x'']\<rparr>)"
    by (simp add: u e)
  from call_femm_decodes [OF a b(1), of "''[1,''" _ _ _ _ _ _ SyntaxError]
  have c5:
    "call_femm (recording_host ''[1,'') fresh_session ''x'' False
       = (Inl SyntaxError, \<lparr>doctype_prefix = None, to_femm = [''x'']\<rparr>)"
    by (simp add: u e)
  from c0 c1 c2 c3 c4 c5 show ?thesis by simp
qed

section \<open>Encoding\<close>

text \<open>C10. The encoding of no arguments is the text \<open>()\<close>.\<close>

theorem parse_args_empty:
  "parse_args [] = ''()''"
  by (simp add: parse_args_def)

section \<open>The polar pattern: failure\<close>

text \<open>
  C6. With zero copies \<open>draw_polyline_pattern\<close> fails, for every list of points and every
  center, before any command is sent. The exception is the ZeroDivisionError of the division
  \<^verbatim>\<open>(2 * np.pi) / repeat\<close>.
\<close>

theorem draw_polyline_pattern_zero:
  "draw_polyline_pattern h s points center (Some 0) = (Inl ZeroDivisionError, s)"
  by (simp add: draw_polyline_pattern_def)

section \<open>Path normalisation\<close>

lemma replace_char:
  "replace_from [a] [b] s = map (\<lambda>c. if c = a then b else c) s"
  by (induction s) auto

lemma collapse_head:
  "(\<exists>r. replace_from ''//'' ''/'' s = CHR ''/'' # r) \<longleftrightarrow> (\<exists>r. s = CHR ''/'' # r)"
  by (cases s) auto

lemma double_slash_Cons:
  "double_slash (a # r) \<longleftrightarrow> (a = CHR ''/'' \<and> (\<exists>t. r = CHR ''/'' # t)) \<or> double_slash r"
  by (cases r) auto

lemma triple_slash_Cons2:
  "triple_slash (a # b # r) \<longleftrightarrow> (a = CHR ''/'' \<and> b = CHR ''/'' \<and> (\<exists>t. r = CHR ''/'' # t)) \<or> triple_slash (b # r)"
  by (cases r) auto

lemma triple_slash_Cons:
  "triple_slash (a # r) \<longleftrightarrow> (a = CHR ''/'' \<and> (\<exists>t. r = CHR ''/'' # CHR ''/'' # t)) \<or> triple_slash r"
  by (cases r rule: triple_slash.cases) auto

lemma collapse_triple:
  "double_slash (replace_from ''//'' ''/'' s) \<longleftrightarrow> triple_slash s"
proof (induction "''//''" "''/''" s rule: replace_from.induct)
  case 1
  then show ?case by simp
next
  case (2 c cs)
  show ?case
  proof (cases "take 2 (c # cs) = ''//''")
    case True
    then obtain r where cs: "cs = CHR ''/'' # r" and c: "c = CHR ''/''"
      by (cases cs) auto
    from 2(1) True have IH: "double_slash (replace_from ''//'' ''/'' r) \<longleftrightarrow> triple_slash r"
      by (simp add: cs)
    have "replace_from ''//'' ''/'' (c # cs) = CHR ''/'' # replace_from ''//'' ''/'' r"
      by (simp add: cs c)
    then show ?thesis
      using IH collapse_head [of r]
      by (auto simp add: cs c double_slash_Cons triple_slash_Cons2 triple_slash_Cons
          simp del: replace_from.simps triple_slash.simps double_slash.simps)
  next
    case False
    from 2(2) False have IH: "double_slash (replace_from ''//'' ''/'' cs) \<longleftrightarrow> triple_slash cs"
      by simp
    have eq: "replace_from ''//'' ''/'' (c # cs) = c # replace_from ''//'' ''/'' cs"
      using False by auto
    from False have nt: "\<not> (c = CHR ''/'' \<and> (\<exists>t. cs = CHR ''/'' # t))"
      by auto
    show ?thesis
      using IH nt collapse_head [of cs]
      by (auto simp add: eq double_slash_Cons triple_slash_Cons
          simp del: replace_from.simps triple_slash.simps double_slash.simps)
  qed
qed

lemma triple_slash_map:
  "triple_slash (map (\<lambda>c. if c = CHR 0x5C then CHR ''/'' else c) p) \<longleftrightarrow> triple_sep p"
  by (induction p rule: triple_sep.induct) (auto simp add: is_sep_def)

lemma collapse_set:
  "set (replace_from ''//'' ''/'' s) \<subseteq> set s"
  by (induction "''//''" "''/''" s rule: replace_from.induct) (auto dest: in_set_dropD)

lemma fix_path_eq:
  "fix_path path =
     replace_from ''//'' ''/'' (map (\<lambda>c. if c = CHR 0x5C then CHR ''/'' else c) path)"
  by (simp add: fix_path_def replace_def replace_char)

text \<open>
  C8, amended. The normalised path has no backslash, and it has two slashes in a row exactly
  when the input has three separators (slashes or backslashes) in a row: \<^verbatim>\<open>replace\<close> makes
  one pass, so a run of \<open>k\<close> separators is left as a run of half as many, rounded up.
\<close>

theorem fix_path_normalises:
  "CHR 0x5C \<notin> set (fix_path path) \<and> (double_slash (fix_path path) \<longleftrightarrow> triple_sep path)"
proof -
  have "CHR 0x5C \<notin> set (map (\<lambda>c. if c = CHR 0x5C then CHR ''/'' else c) path)"
    by auto
  with collapse_set have "CHR 0x5C \<notin> set (fix_path path)"
    unfolding fix_path_eq by blast
  moreover have "double_slash (fix_path path) \<longleftrightarrow> triple_sep path"
    unfolding fix_path_eq by (simp only: collapse_triple triple_slash_map)
  ultimately show ?thesis by simp
qed

text \<open>
  C8 as the specification has it: no two slashes in a row are left. Three slashes are
  normalised to two.
\<close>

theorem fix_path_counterexample:
  "fix_path ''///'' = ''//'' \<and> double_slash (fix_path ''///'')"
  by (simp add: fix_path_def replace_def)

section \<open>The polar pattern: the shapes returned\<close>

lemma and_then_Inr:
  "and_then r f = (Inr v, s') \<longleftrightarrow> (\<exists>u s1. r = (Inr u, s1) \<and> f u s1 = (Inr v, s'))"
  by (cases r) (auto simp add: and_then_def split: sum.splits)

lemma pattern_loop_appends:
  "pattern_loop h points center a ret s is = (Inr ret', s')
   \<Longrightarrow> \<exists>new. ret' = ret @ new \<and> length new = length (filter (\<lambda>i. i \<noteq> 0) is)"
proof (induction "is" arbitrary: ret s)
  case Nil
  then show ?case by simp
next
  case (Cons i rest)
  show ?case
  proof (cases "i = 0")
    case True
    with Cons.prems obtain s1 where
      "pattern_loop h points center a ret s1 rest = (Inr ret', s')"
      by (auto simp add: and_then_Inr)
    from Cons.IH [OF this] True show ?thesis by simp
  next
    case False
    with Cons.prems obtain new_points s1 where
      "pattern_loop h points center a (ret @ [new_points]) s1 rest = (Inr ret', s')"
      by (auto simp add: and_then_Inr split: sum.splits)
    from Cons.IH [OF this] False show ?thesis by auto
  qed
qed

lemma range_nonzero_count:
  "length (filter (\<lambda>i. i \<noteq> 0) [0..<N]) = N - 1"
proof (cases N)
  case 0
  then show ?thesis by simp
next
  case (Suc m)
  have "filter (\<lambda>i. i \<noteq> 0) [Suc 0..<Suc m] = [Suc 0..<Suc m]"
    by (rule filter_True) auto
  then show ?thesis
    by (simp add: Suc upt_conv_Cons del: upt_Suc)
qed

text \<open>Every layer succeeds when the channel answers every command.\<close>

lemma call_femm_prefix:
  "call_femm h s cmd b = (r, s') \<Longrightarrow> doctype_prefix s' = doctype_prefix s"
  by (auto simp add: call_femm_def split: sum.splits prod.splits if_splits)

lemma with_args_ok:
  assumes "\<forall>s cmd. \<exists>v s'. call_femm h s cmd False = (Inr v, s')" and "doctype_prefix s = Some p"
  shows "\<exists>v s'. api_call_femm_with_args mp h s name args = (Inr v, s') \<and> doctype_prefix s' = Some p"
proof -
  let ?cmd = "p @ add_mode_prefix mp name @ parse_args args"
  from assms(1) obtain v s' where c: "call_femm h s ?cmd False = (Inr v, s')"
    by blast
  from call_femm_prefix [OF c] assms(2) have "doctype_prefix s' = Some p" by simp
  with c assms(2) show ?thesis
    by (simp add: api_call_femm_with_args_def call_femm_with_args_def add_doctype_prefix_def)
qed

lemma add_node_ok:
  assumes "\<forall>s cmd. \<exists>v s'. call_femm h s cmd False = (Inr v, s')" and "doctype_prefix s = Some p"
  shows "\<exists>s'. add_node h s x y = (Inr (), s') \<and> doctype_prefix s' = Some p"
  using with_args_ok [OF assms, of pre_prefix "''addnode''" "[Num x, Num y]"]
  by (auto simp add: add_node_def and_then_def)

lemma add_segment_ok:
  assumes "\<forall>s cmd. \<exists>v s'. call_femm h s cmd False = (Inr v, s')" and "doctype_prefix s = Some p"
  shows "\<exists>s'. add_segment h s x1 y1 x2 y2 = (Inr (), s') \<and> doctype_prefix s' = Some p"
  using with_args_ok [OF assms, of pre_prefix "''addsegment''" "[Num x1, Num y1, Num x2, Num y2]"]
  by (auto simp add: add_segment_def and_then_def)

lemma draw_line_ok:
  assumes "\<forall>s cmd. \<exists>v s'. call_femm h s cmd False = (Inr v, s')" and "doctype_prefix s = Some p"
  shows "\<exists>s'. draw_line h s x1 y1 x2 y2 = (Inr (), s') \<and> doctype_prefix s' = Some p"
proof -
  from add_node_ok [OF assms] obtain s1 where
    a: "add_node h s x1 y1 = (Inr (), s1)" and p1: "doctype_prefix s1 = Some p" by blast
  from add_node_ok [OF assms(1) p1] obtain s2 where
    b: "add_node h s1 x2 y2 = (Inr (), s2)" and p2: "doctype_prefix s2 = Some p" by blast
  from add_segment_ok [OF assms(1) p2] obtain s3 where
    c: "add_segment h s2 x1 y1 x2 y2 = (Inr (), s3)" and p3: "doctype_prefix s3 = Some p" by blast
  from a b c p3 show ?thesis
    by (simp add: draw_line_def and_then_def)
qed

lemma draw_polyline_step_ok:
  assumes "\<forall>s cmd. \<exists>v s'. call_femm h s cmd False = (Inr v, s')" and "doctype_prefix s = Some p"
  shows "\<exists>s'. draw_polyline_step h pl s ip = (Inr (), s') \<and> doctype_prefix s' = Some p"
proof -
  obtain i cp where ip: "ip = (i, cp)" by (cases ip)
  from add_node_ok [OF assms] obtain s1 where
    a: "add_node h s (fst cp) (snd cp) = (Inr (), s1)" and p1: "doctype_prefix s1 = Some p" by blast
  from draw_line_ok [OF assms(1) p1] obtain s2 where
    b: "draw_line h s1 (fst (pl ! (i - 1))) (snd (pl ! (i - 1))) (fst cp) (snd cp) = (Inr (), s2)"
    and p2: "doctype_prefix s2 = Some p" by blast
  from a b p1 p2 show ?thesis
    by (simp add: draw_polyline_step_def ip and_then_def)
qed

lemma draw_polyline_loop_ok:
  assumes "\<forall>s cmd. \<exists>v s'. call_femm h s cmd False = (Inr v, s')"
  shows "doctype_prefix s = Some p
    \<Longrightarrow> \<exists>s'. draw_polyline_loop h pl s ips = (Inr (), s') \<and> doctype_prefix s' = Some p"
proof (induction ips arbitrary: s)
  case Nil
  then show ?case by simp
next
  case (Cons ip rest)
  from draw_polyline_step_ok [OF assms Cons.prems] obtain s1 where
    a: "draw_polyline_step h pl s ip = (Inr (), s1)" and p1: "doctype_prefix s1 = Some p" by blast
  from Cons.IH [OF p1] a show ?case
    by (simp add: and_then_def)
qed

lemma draw_polyline_ok:
  assumes "\<forall>s cmd. \<exists>v s'. call_femm h s cmd False = (Inr v, s')" and "doctype_prefix s = Some p"
  shows "\<exists>s'. draw_polyline h s pl = (Inr (), s') \<and> doctype_prefix s' = Some p"
  unfolding draw_polyline_def by (rule draw_polyline_loop_ok [OF assms])

lemma pattern_loop_ok:
  assumes "\<forall>s cmd. \<exists>v s'. call_femm h s cmd False = (Inr v, s')"
  shows "doctype_prefix s = Some p
    \<Longrightarrow> \<exists>ret' s'. pattern_loop h points (Some c) a ret s is = (Inr ret', s')"
proof (induction "is" arbitrary: ret s)
  case Nil
  then show ?case by simp
next
  case (Cons i rest)
  show ?case
  proof (cases "i = 0")
    case True
    from draw_polyline_ok [OF assms Cons.prems] obtain s1 where
      a: "draw_polyline h s points = (Inr (), s1)" and p1: "doctype_prefix s1 = Some p" by blast
    from Cons.IH [OF p1] a True show ?thesis
      by (simp add: and_then_def)
  next
    case False
    obtain np where r: "rotate_points (a * real i) (Some c) points = Inr np"
      by (cases points) (simp_all add: rotate_points_def)
    from draw_polyline_ok [OF assms Cons.prems] obtain s1 where
      a: "draw_polyline h s np = (Inr (), s1)" and p1: "doctype_prefix s1 = Some p" by blast
    from Cons.IH [OF p1] a r False show ?thesis
      by (simp add: and_then_def)
  qed
qed

lemma parse_args_ints:
  "parse_args [Num (PyInt 0), Num (PyInt 0)] = ''(0, 0)''"
  "parse_args [Num (PyInt 1), Num (PyInt 0)] = ''(1, 0)''"
  "parse_args [Num (PyInt 0), Num (PyInt 0), Num (PyInt 1), Num (PyInt 0)] = ''(0, 0, 1, 0)''"
  by (simp_all add: parse_args_def render_arg_def str_int_small)

text \<open>
  C5. For \<open>n \<ge> 1\<close> copies, every list that \<open>draw_polyline_pattern\<close> returns has exactly
  \<open>n\<close> shapes and the input list of points, as it is, at index 0; with one copy it is the
  input alone, and \<open>rotate_points\<close> is not reached. The draw commands are sent while the
  list is built, so the function returns when they succeed: it does whenever a mode is set, a
  center is given and the channel answers every command without an error.
\<close>

theorem draw_polyline_pattern_shapes:
  assumes "1 \<le> n"
  shows "(draw_polyline_pattern h s points center (Some n) = (Inr ret, s')
            \<longrightarrow> length ret = nat n \<and> ret ! 0 = points \<and> (n = 1 \<longrightarrow> ret = [points]))
       \<and> (doctype_prefix s \<noteq> None \<and> center \<noteq> None
            \<and> (\<forall>s cmd. \<exists>v s'. call_femm h s cmd False = (Inr v, s'))
            \<longrightarrow> (\<exists>ret s'. draw_polyline_pattern h s points center (Some n) = (Inr ret, s')))"
proof (rule conjI)
  show "draw_polyline_pattern h s points center (Some n) = (Inr ret, s')
          \<longrightarrow> length ret = nat n \<and> ret ! 0 = points \<and> (n = 1 \<longrightarrow> ret = [points])"
  proof
    assume run: "draw_polyline_pattern h s points center (Some n) = (Inr ret, s')"
    with assms have
      "pattern_loop h points center ((2 * pi) / of_int n) [points] s [0..<nat n] = (Inr ret, s')"
      by (simp add: draw_polyline_pattern_def)
    from pattern_loop_appends [OF this] obtain new where
      ret: "ret = [points] @ new"
      and len0: "length new = length (filter (\<lambda>i. i \<noteq> 0) [0..<nat n])"
      by blast
    from len0 have len: "length new = nat n - 1"
      by (simp only: range_nonzero_count)
    from ret len assms
    show "length ret = nat n \<and> ret ! 0 = points \<and> (n = 1 \<longrightarrow> ret = [points])"
      by auto
  qed
next
  show "doctype_prefix s \<noteq> None \<and> center \<noteq> None
          \<and> (\<forall>s cmd. \<exists>v s'. call_femm h s cmd False = (Inr v, s'))
          \<longrightarrow> (\<exists>ret s'. draw_polyline_pattern h s points center (Some n) = (Inr ret, s'))"
  proof
    assume "doctype_prefix s \<noteq> None \<and> center \<noteq> None
              \<and> (\<forall>s cmd. \<exists>v s'. call_femm h s cmd False = (Inr v, s'))"
    then obtain p c where p: "doctype_prefix s = Some p" and c: "center = Some c"
      and an: "\<forall>s cmd. \<exists>v s'. call_femm h s cmd False = (Inr v, s')"
      by auto
    from pattern_loop_ok [OF an p] assms c
    show "\<exists>ret s'. draw_polyline_pattern h s points center (Some n) = (Inr ret, s')"
      by (simp add: draw_polyline_pattern_def)
  qed
qed

theorem draw_polyline_pattern_shapes_witness:
  "(1::int) \<le> 1
   \<and> draw_polyline_pattern (recording_host []) \<lparr>doctype_prefix = Some ''m'', to_femm = []\<rparr>
         [(PyInt 0, PyInt 0), (PyInt 1, PyInt 0)] (Some (PyInt 0, PyInt 0)) (Some 1)
       = (Inr [[(PyInt 0, PyInt 0), (PyInt 1, PyInt 0)]],
          \<lparr>doctype_prefix = Some ''m'',
           to_femm = [''mi_addnode(0, 0)'', ''mi_addnode(1, 0)'', ''mi_addnode(0, 0)'',
                      ''mi_addnode(1, 0)'', ''mi_addsegment(0, 0, 1, 0)'']\<rparr>)
   \<and> length [[(PyInt 0, PyInt 0), (PyInt 1, PyInt 0)]] = nat 1
   \<and> (\<exists>ret s'. draw_polyline_pattern (recording_host []) \<lparr>doctype_prefix = Some ''m'', to_femm = []\<rparr>
                   [(PyInt 0, PyInt 0), (PyInt 1, PyInt 0)] (Some (PyInt 0, PyInt 0)) (Some 2)
                 = (Inr ret, s')
               \<and> length ret = 2 \<and> ret ! 0 = [(PyInt 0, PyInt 0), (PyInt 1, PyInt 0)])"
proof -
  let ?h = "recording_host [] :: string list host"
  let ?s = "\<lparr>doctype_prefix = Some ''m'', to_femm = []\<rparr> :: string list FEMMSession"
  let ?p = "[(PyInt 0, PyInt 0), (PyInt 1, PyInt 0)]"
  let ?c = "Some (PyInt 0, PyInt 0)"
  have one: "(1::int) \<le> 1" and two: "(1::int) \<le> 2" by simp_all
  have run: "draw_polyline_pattern ?h ?s ?p ?c (Some 1)
       = (Inr [?p],
          \<lparr>doctype_prefix = Some ''m'',
           to_femm = [''mi_addnode(0, 0)'', ''mi_addnode(1, 0)'', ''mi_addnode(0, 0)'',
                      ''mi_addnode(1, 0)'', ''mi_addsegment(0, 0, 1, 0)'']\<rparr>)"
    by (simp add: draw_polyline_pattern_def draw_polyline_def draw_polyline_step_def
        draw_line_def add_node_def add_segment_def api_call_femm_with_args_def
        call_femm_with_args_def add_doctype_prefix_def add_mode_prefix_def pre_prefix_def
        call_femm_recording_empty and_then_def parse_args_ints)
  from draw_polyline_pattern_shapes [OF one, of ?h ?s ?p ?c] run
  have len1: "length [?p] = nat 1" by simp
  have ok: "doctype_prefix ?s \<noteq> None \<and> ?c \<noteq> None
      \<and> (\<forall>s cmd. \<exists>v s'. call_femm ?h s cmd False = (Inr v, s'))"
    by (simp add: call_femm_recording_empty)
  from draw_polyline_pattern_shapes [OF two, of ?h ?s ?p ?c] ok
  obtain ret s' where r2: "draw_polyline_pattern ?h ?s ?p ?c (Some 2) = (Inr ret, s')"
    by blast
  from draw_polyline_pattern_shapes [OF two, of ?h ?s ?p ?c ret s'] r2
  have "length ret = 2 \<and> ret ! 0 = ?p" by simp
  with r2 run len1 show ?thesis by blast
qed

section \<open>The round trip of the arguments\<close>

lemma digit_char_val: "d < 10 \<Longrightarrow> digit_val (digit_char d) = d"
proof -
  assume "d < 10"
  then consider "d = 0" | "d = 1" | "d = 2" | "d = 3" | "d = 4"
    | "d = 5" | "d = 6" | "d = 7" | "d = 8" | "d = 9"
    by atomize_elim arith
  then show ?thesis
    by cases (simp_all add: digit_char_def digit_val_def)
qed

lemma digit_char_digit: "d < 10 \<Longrightarrow> is_digit (digit_char d)"
proof -
  assume "d < 10"
  then consider "d = 0" | "d = 1" | "d = 2" | "d = 3" | "d = 4"
    | "d = 5" | "d = 6" | "d = 7" | "d = 8" | "d = 9"
    by atomize_elim arith
  then show ?thesis
    by cases (simp_all add: digit_char_def is_digit_def)
qed

lemma digits_nonempty: "digits n \<noteq> []"
  by (subst digits.simps) simp

lemma digits_all_digit: "list_all is_digit (digits n)"
proof (induction n rule: digits.induct)
  case (1 n)
  show ?case
  proof (cases "n < 10")
    case True
    then show ?thesis by (subst digits.simps) (simp add: digit_char_digit)
  next
    case False
    with 1 show ?thesis by (subst digits.simps) (simp add: digit_char_digit)
  qed
qed

lemma digits_val_step:
  "foldl (\<lambda>n c. 10 * n + digit_val c) a ys
     = a * 10 ^ length ys + foldl (\<lambda>n c. 10 * n + digit_val c) 0 ys"
proof (induction ys arbitrary: a)
  case Nil
  then show ?case by simp
next
  case (Cons y ys)
  have "foldl (\<lambda>n c. 10 * n + digit_val c) a (y # ys)
      = (10 * a + digit_val y) * 10 ^ length ys + foldl (\<lambda>n c. 10 * n + digit_val c) 0 ys"
    using Cons.IH [of "10 * a + digit_val y"] by simp
  moreover have "foldl (\<lambda>n c. 10 * n + digit_val c) 0 (y # ys)
      = digit_val y * 10 ^ length ys + foldl (\<lambda>n c. 10 * n + digit_val c) 0 ys"
    using Cons.IH [of "digit_val y"] by simp
  ultimately show ?case by (simp add: algebra_simps)
qed

lemma digits_val_append:
  "digits_val (xs @ ys) = digits_val xs * 10 ^ length ys + digits_val ys"
  unfolding digits_val_def by (simp add: digits_val_step [of "foldl _ _ xs"])

lemma digits_val_zeros: "digits_val (replicate k CHR ''0'') = 0"
  by (induction k) (simp_all add: digits_val_def digit_val_def)

lemma digits_val_single: "digits_val [c] = digit_val c"
  by (simp add: digits_val_def)

lemma digits_value: "digits_val (digits n) = n"
proof (induction n rule: digits.induct)
  case (1 n)
  show ?case
  proof (cases "n < 10")
    case True
    then show ?thesis by (subst digits.simps) (simp add: digits_val_single digit_char_val)
  next
    case False
    with 1 show ?thesis
      by (subst digits.simps) (simp add: digits_val_append digits_val_single digit_char_val)
  qed
qed

lemma read_nat_digits: "read_nat (digits n) = Some n"
  by (simp add: read_nat_def digits_nonempty digits_all_digit digits_value)

lemma strip10_scaled:
  "m \<noteq> 0 \<Longrightarrow> strip10 (m * 10 ^ k) (e - int k) = strip10 m e"
proof (induction k arbitrary: e)
  case 0
  then show ?case by simp
next
  case (Suc k)
  have "strip10 (m * 10 ^ Suc k) (e - int (Suc k)) = strip10 (m * 10 ^ k) (e - int k)"
    using Suc.prems(1) by (subst strip10.simps) (simp add: algebra_simps)
  with Suc show ?case by simp
qed

lemma make_float_scaled:
  "make_float neg (m * 10 ^ k) (e - int k) = make_float neg m e"
  by (cases "m = 0") (simp_all add: make_float_def strip10_scaled)

lemma make_float_wf:
  "float_wf (Finite neg m e) \<Longrightarrow> make_float neg m e = Finite neg m e"
  by (cases "m = 0") (simp_all add: make_float_def strip10.simps)

lemma normal_float_wf: "float_wf f \<Longrightarrow> normal_float f = f"
  by (cases f) (simp_all add: make_float_wf del: float_wf.simps)

lemma normal_written: "written_normal a \<Longrightarrow> normal a = a"
proof (cases a)
  case (Str t)
  then show ?thesis by simp
next
  case (Num n)
  assume "written_normal a"
  with Num show ?thesis by (cases n) (simp_all add: normal_float_wf)
qed

lemma digit_not_mark:
  "is_digit c \<Longrightarrow> c \<noteq> CHR ''e'' \<and> c \<noteq> CHR ''.'' \<and> c \<noteq> CHR ''-'' \<and> c \<noteq> CHR ''+''"
  by (auto simp add: is_digit_def)

lemma while_stop:
  "\<forall>c\<in>set xs. P c \<Longrightarrow> \<not> P y
   \<Longrightarrow> takeWhile P (xs @ y # ys) = xs \<and> dropWhile P (xs @ y # ys) = y # ys"
  by (induction xs) auto

lemma while_all:
  "\<forall>c\<in>set xs. P c \<Longrightarrow> takeWhile P xs = xs \<and> dropWhile P xs = []"
  by (induction xs) auto

lemma read_exp_text: "read_exp (CHR ''e'' # exp_text x) = Some x"
proof -
  have z: "digits_val (''0'' @ digits (nat \<bar>x\<bar>)) = nat \<bar>x\<bar>"
    by (simp only: digits_val_append digits_value) (simp add: digits_val_def digit_val_def)
  have d: "list_all is_digit (''0'' @ digits (nat \<bar>x\<bar>))"
    using digits_all_digit [of "nat \<bar>x\<bar>"] by (simp add: is_digit_def)
  have pad: "read_nat ((if \<bar>x\<bar> < 10 then ''0'' else []) @ digits (nat \<bar>x\<bar>)) = Some (nat \<bar>x\<bar>)"
  proof (cases "\<bar>x\<bar> < 10")
    case True
    then show ?thesis using z d by (simp add: read_nat_def)
  next
    case False
    then show ?thesis by (simp add: read_nat_digits)
  qed
  show ?thesis
  proof (cases "x < 0")
    case True
    with pad show ?thesis by (simp add: read_exp_def exp_text_def)
  next
    case False
    with pad show ?thesis by (simp add: read_exp_def exp_text_def)
  qed
qed

text \<open>A mantissa with a point, and an exponent or none.\<close>

lemma read_unsigned_point:
  assumes ip: "list_all is_digit ip" "ip \<noteq> []" and fr: "list_all is_digit fr"
  shows "read_unsigned neg (ip @ CHR ''.'' # fr)
           = Some (PyFloat (make_float neg (digits_val (ip @ fr)) (- int (length fr))))"
    and "read_unsigned neg (ip @ CHR ''.'' # fr @ CHR ''e'' # exp_text x)
           = Some (PyFloat (make_float neg (digits_val (ip @ fr)) (x - int (length fr))))"
proof -
  have m: "\<forall>c\<in>set (ip @ CHR ''.'' # fr). c \<noteq> CHR ''e''"
    using ip(1) fr digit_not_mark by (auto simp add: list_all_iff)
  have i: "\<forall>c\<in>set ip. c \<noteq> CHR ''.''"
    using ip(1) digit_not_mark by (auto simp add: list_all_iff)
  have s1: "takeWhile (\<lambda>c. c \<noteq> CHR ''.'') (ip @ CHR ''.'' # fr) = ip"
    "dropWhile (\<lambda>c. c \<noteq> CHR ''.'') (ip @ CHR ''.'' # fr) = CHR ''.'' # fr"
    using while_stop [of ip "\<lambda>c. c \<noteq> CHR ''.''" "CHR ''.''" fr] i by simp_all
  have a1: "takeWhile (\<lambda>c. c \<noteq> CHR ''e'') (ip @ CHR ''.'' # fr) = ip @ CHR ''.'' # fr"
    "dropWhile (\<lambda>c. c \<noteq> CHR ''e'') (ip @ CHR ''.'' # fr) = []"
    using while_all [OF m] by simp_all
  have a2: "takeWhile (\<lambda>c. c \<noteq> CHR ''e'') ((ip @ CHR ''.'' # fr) @ CHR ''e'' # exp_text x)
              = ip @ CHR ''.'' # fr"
    "dropWhile (\<lambda>c. c \<noteq> CHR ''e'') ((ip @ CHR ''.'' # fr) @ CHR ''e'' # exp_text x)
              = CHR ''e'' # exp_text x"
    using while_stop [OF m, of "CHR ''e''" "exp_text x"] by simp_all
  have rn: "read_nat ip = Some (digits_val ip)"
    using ip by (simp add: read_nat_def)
  have rf: "read_frac (CHR ''.'' # fr) = Some fr"
    using fr by (simp add: read_frac_def)
  show "read_unsigned neg (ip @ CHR ''.'' # fr)
           = Some (PyFloat (make_float neg (digits_val (ip @ fr)) (- int (length fr))))"
    unfolding read_unsigned_def
    by (simp only: a1 s1 Let_def) (simp add: rn rf read_exp_def)
  have "read_unsigned neg ((ip @ CHR ''.'' # fr) @ CHR ''e'' # exp_text x)
           = Some (PyFloat (make_float neg (digits_val (ip @ fr)) (x - int (length fr))))"
    unfolding read_unsigned_def
    by (simp only: a2 s1 Let_def) (simp add: rn rf read_exp_text)
  then show "read_unsigned neg (ip @ CHR ''.'' # fr @ CHR ''e'' # exp_text x)
           = Some (PyFloat (make_float neg (digits_val (ip @ fr)) (x - int (length fr))))"
    by simp
qed

text \<open>A mantissa without a point, with an exponent.\<close>

lemma read_unsigned_exp:
  assumes ip: "list_all is_digit ip" "ip \<noteq> []"
  shows "read_unsigned neg (ip @ CHR ''e'' # exp_text x)
           = Some (PyFloat (make_float neg (digits_val ip) x))"
proof -
  have m: "\<forall>c\<in>set ip. c \<noteq> CHR ''e''" and i: "\<forall>c\<in>set ip. c \<noteq> CHR ''.''"
    using ip(1) digit_not_mark by (auto simp add: list_all_iff)
  have a: "takeWhile (\<lambda>c. c \<noteq> CHR ''e'') (ip @ CHR ''e'' # exp_text x) = ip"
    "dropWhile (\<lambda>c. c \<noteq> CHR ''e'') (ip @ CHR ''e'' # exp_text x) = CHR ''e'' # exp_text x"
    using while_stop [OF m, of "CHR ''e''" "exp_text x"] by simp_all
  have s: "takeWhile (\<lambda>c. c \<noteq> CHR ''.'') ip = ip" "dropWhile (\<lambda>c. c \<noteq> CHR ''.'') ip = []"
    using while_all [OF i] by simp_all
  have rn: "read_nat ip = Some (digits_val ip)"
    using ip by (simp add: read_nat_def)
  show ?thesis
    unfolding read_unsigned_def
    by (simp only: a s Let_def) (simp add: rn read_frac_def read_exp_text)
qed

text \<open>Digits alone are an int.\<close>

lemma read_unsigned_int:
  assumes ip: "list_all is_digit ip" "ip \<noteq> []"
  shows "read_unsigned neg ip = Some (PyInt (if neg then - int (digits_val ip) else int (digits_val ip)))"
proof -
  have m: "\<forall>c\<in>set ip. c \<noteq> CHR ''e''" and i: "\<forall>c\<in>set ip. c \<noteq> CHR ''.''"
    using ip(1) digit_not_mark by (auto simp add: list_all_iff)
  have a: "takeWhile (\<lambda>c. c \<noteq> CHR ''e'') ip = ip" "dropWhile (\<lambda>c. c \<noteq> CHR ''e'') ip = []"
    using while_all [OF m] by simp_all
  have s: "takeWhile (\<lambda>c. c \<noteq> CHR ''.'') ip = ip" "dropWhile (\<lambda>c. c \<noteq> CHR ''.'') ip = []"
    using while_all [OF i] by simp_all
  have rn: "read_nat ip = Some (digits_val ip)"
    using ip by (simp add: read_nat_def)
  show ?thesis
    unfolding read_unsigned_def
    by (simp only: a s Let_def) (simp add: rn)
qed

lemma zeros_digits: "list_all is_digit (replicate k CHR ''0'')"
  by (simp add: list_all_iff is_digit_def)

lemma digits_val_lead: "digits_val (replicate k CHR ''0'' @ xs) = digits_val xs"
  by (simp add: digits_val_append digits_val_zeros)

lemma digits_val_trail: "digits_val (xs @ replicate k CHR ''0'') = digits_val xs * 10 ^ k"
  by (simp add: digits_val_append digits_val_zeros)

lemma read_back:
  assumes "read_unsigned neg txt = Some (PyFloat (make_float neg M E))"
    and "M = m * 10 ^ k" and "E = e - int k" and "repr_finite m e = txt"
  shows "read_unsigned neg (repr_finite m e) = Some (PyFloat (make_float neg m e))"
  using assms(1) make_float_scaled [of neg m k e]
  by (simp only: assms(2,3,4))

lemma read_unsigned_repr:
  "read_unsigned neg (repr_finite m e) = Some (PyFloat (make_float neg m e))"
proof -
  let ?ds = "digits m"
  let ?n = "int (length ?ds)"
  let ?decpt = "?n + e"
  have dd: "list_all is_digit ?ds" by (rule digits_all_digit)
  have dn: "?ds \<noteq> []" by (rule digits_nonempty)
  have dv: "digits_val ?ds = m" by (rule digits_value)
  show ?thesis
  proof (cases "m = 0")
    case True
    have "read_unsigned neg (''0'' @ CHR ''.'' # ''0'')
        = Some (PyFloat (make_float neg (digits_val (''0'' @ ''0'')) (- int (length ''0''))))"
      by (rule read_unsigned_point(1)) (simp_all add: is_digit_def)
    moreover have "digits_val (''0'' @ ''0'') = 0"
      by (simp add: digits_val_def digit_val_def)
    moreover have "repr_finite m e = ''0'' @ CHR ''.'' # ''0''"
      using True by (simp add: repr_finite_def)
    ultimately show ?thesis using True by (simp add: make_float_def)
  next
    case nz: False
    show ?thesis
    proof (cases "?decpt \<le> - 4 \<or> 16 < ?decpt")
      case sci: True
      show ?thesis
      proof (cases "1 < ?n")
        case True
        obtain c cs where ds: "?ds = c # cs" using dn by (cases ?ds) auto
        from dd ds have c: "list_all is_digit [c]" and cs: "list_all is_digit cs" by simp_all
        have "read_unsigned neg ([c] @ CHR ''.'' # cs @ CHR ''e'' # exp_text (?decpt - 1))
            = Some (PyFloat (make_float neg (digits_val ([c] @ cs)) ((?decpt - 1) - int (length cs))))"
          by (rule read_unsigned_point(2) [OF c _ cs]) simp
        moreover have "digits_val ([c] @ cs) = m * 10 ^ 0" using dv ds by simp
        moreover have "(?decpt - 1) - int (length cs) = e - int 0" using ds by simp
        moreover have "repr_finite m e = [c] @ CHR ''.'' # cs @ CHR ''e'' # exp_text (?decpt - 1)"
          using nz sci True ds by (simp add: repr_finite_def Let_def)
        ultimately show ?thesis by (rule read_back)
      next
        case False
        with dn have one: "?n = 1" by (cases ?ds) auto
        then obtain c where ds: "?ds = [c]" by (cases ?ds) auto
        have "read_unsigned neg (?ds @ CHR ''e'' # exp_text (?decpt - 1))
            = Some (PyFloat (make_float neg (digits_val ?ds) (?decpt - 1)))"
          by (rule read_unsigned_exp [OF dd dn])
        moreover have "digits_val ?ds = m * 10 ^ 0" using dv by simp
        moreover have "?decpt - 1 = e - int 0" using one by simp
        moreover have "repr_finite m e = ?ds @ CHR ''e'' # exp_text (?decpt - 1)"
          using nz sci False ds by (simp add: repr_finite_def Let_def)
        ultimately show ?thesis by (rule read_back)
      qed
    next
      case fixed: False
      show ?thesis
      proof (cases "?decpt \<le> 0")
        case True
        let ?z = "replicate (nat (- ?decpt)) CHR ''0''"
        have fr: "list_all is_digit (?z @ ?ds)" using dd zeros_digits by simp
        have "read_unsigned neg (''0'' @ CHR ''.'' # (?z @ ?ds))
            = Some (PyFloat (make_float neg (digits_val (''0'' @ (?z @ ?ds))) (- int (length (?z @ ?ds)))))"
          by (rule read_unsigned_point(1) [OF _ _ fr]) (simp_all add: is_digit_def)
        moreover have "digits_val (''0'' @ (?z @ ?ds)) = m * 10 ^ 0"
          using digits_val_lead [of "Suc (nat (- ?decpt))" ?ds] dv by simp
        moreover have "- int (length (?z @ ?ds)) = e - int 0" using True by simp
        moreover have "repr_finite m e = ''0'' @ CHR ''.'' # (?z @ ?ds)"
          using nz fixed True by (simp add: repr_finite_def Let_def)
        ultimately show ?thesis by (rule read_back)
      next
        case pos: False
        show ?thesis
        proof (cases "?decpt < ?n")
          case True
          let ?ip = "take (nat ?decpt) ?ds"
          let ?fr = "drop (nat ?decpt) ?ds"
          have ip: "list_all is_digit ?ip" and fr: "list_all is_digit ?fr"
            using dd by (auto simp add: list_all_iff dest: in_set_takeD in_set_dropD)
          have ipn: "?ip \<noteq> []" using pos dn by simp
          have "read_unsigned neg (?ip @ CHR ''.'' # ?fr)
              = Some (PyFloat (make_float neg (digits_val (?ip @ ?fr)) (- int (length ?fr))))"
            by (rule read_unsigned_point(1) [OF ip ipn fr])
          moreover have "digits_val (?ip @ ?fr) = m * 10 ^ 0" using dv by simp
          moreover have "- int (length ?fr) = e - int 0" using True pos by simp
          moreover have "repr_finite m e = ?ip @ CHR ''.'' # ?fr"
            using nz fixed pos True by (simp add: repr_finite_def Let_def)
          ultimately show ?thesis by (rule read_back)
        next
          case False
          let ?k = "nat (?decpt - ?n)"
          let ?ip = "?ds @ replicate ?k CHR ''0''"
          have ek: "int ?k = e" using False by simp
          have ip: "list_all is_digit ?ip" using dd zeros_digits by simp
          have ipn: "?ip \<noteq> []" using dn by simp
          have "read_unsigned neg (?ip @ CHR ''.'' # ''0'')
              = Some (PyFloat (make_float neg (digits_val (?ip @ ''0'')) (- int (length ''0''))))"
            by (rule read_unsigned_point(1) [OF ip ipn]) (simp add: is_digit_def)
          moreover have "digits_val (?ip @ ''0'') = m * 10 ^ Suc ?k"
            using digits_val_trail [of ?ds "Suc ?k"] dv by (simp add: replicate_append_same)
          moreover have "- int (length ''0'') = e - int (Suc ?k)" using ek by simp
          moreover have "repr_finite m e = ?ip @ CHR ''.'' # ''0''"
            using nz fixed pos False by (simp add: repr_finite_def Let_def)
          ultimately show ?thesis by (rule read_back)
        qed
      qed
    qed
  qed
qed

lemma digits_hd: "is_digit (hd (digits m))"
  using digits_all_digit [of m] digits_nonempty [of m] by (cases "digits m") auto

lemma digit_numchar: "is_digit c \<Longrightarrow> is_numchar c"
  by (simp add: is_numchar_def)

lemma exp_text_numchars: "list_all is_numchar (exp_text x)"
proof -
  have d: "list_all is_numchar (digits (nat \<bar>x\<bar>))"
    using digits_all_digit [of "nat \<bar>x\<bar>"] by (simp add: list_all_iff digit_numchar)
  have s: "is_numchar CHR ''-''" "is_numchar CHR ''+''" "is_numchar CHR ''0''"
    by (simp_all add: is_numchar_def is_digit_def)
  show ?thesis
    unfolding exp_text_def using d s by simp
qed

lemma digits_numchars:
  "list_all is_numchar (digits m)"
  "list_all is_numchar (take n (digits m))"
  "list_all is_numchar (drop n (digits m))"
  "list_all is_numchar (tl (digits m))"
  "is_numchar (hd (digits m))"
proof -
  show a: "list_all is_numchar (digits m)"
    using digits_all_digit [of m] by (auto simp add: list_all_iff digit_numchar)
  from a show "list_all is_numchar (take n (digits m))"
    by (auto simp add: list_all_iff dest: in_set_takeD)
  from a show "list_all is_numchar (drop n (digits m))"
    by (auto simp add: list_all_iff dest: in_set_dropD)
  from a show "list_all is_numchar (tl (digits m))"
    by (cases "digits m") simp_all
  show "is_numchar (hd (digits m))" using digits_hd by (rule digit_numchar)
qed

lemma zeros_numchars: "list_all is_numchar (replicate k CHR ''0'')"
  by (simp add: list_all_iff is_numchar_def is_digit_def)

lemma mark_numchars: "is_numchar CHR ''0''" "is_numchar CHR ''.''" "is_numchar CHR ''e''"
  by (simp_all add: is_numchar_def is_digit_def)

lemma repr_finite_numchars: "list_all is_numchar (repr_finite m e)"
  by (simp add: repr_finite_def Let_def digits_numchars zeros_numchars mark_numchars
      exp_text_numchars)

lemma hd_take_digits: "0 < n \<Longrightarrow> hd (take n (digits m)) = hd (digits m)"
  using digits_nonempty [of m] by (cases "digits m"; cases n) auto

lemma repr_finite_first: "repr_finite m e \<noteq> [] \<and> is_digit (hd (repr_finite m e))"
proof -
  let ?ds = "digits m"
  let ?decpt = "int (length ?ds) + e"
  have z: "is_digit CHR ''0''" by (simp add: is_digit_def)
  have dn: "?ds \<noteq> []" by (rule digits_nonempty)
  consider "m = 0"
    | "m \<noteq> 0" "?decpt \<le> - 4 \<or> 16 < ?decpt"
    | "m \<noteq> 0" "\<not> (?decpt \<le> - 4 \<or> 16 < ?decpt)" "?decpt \<le> 0"
    | "m \<noteq> 0" "\<not> (?decpt \<le> - 4 \<or> 16 < ?decpt)" "\<not> ?decpt \<le> 0" "?decpt < int (length ?ds)"
    | "m \<noteq> 0" "\<not> (?decpt \<le> - 4 \<or> 16 < ?decpt)" "\<not> ?decpt \<le> 0" "\<not> ?decpt < int (length ?ds)"
    by blast
  then show ?thesis
  proof cases
    case 1
    then show ?thesis by (simp add: repr_finite_def z)
  next
    case 2
    then show ?thesis using digits_hd [of m] by (simp add: repr_finite_def Let_def)
  next
    case 3
    then show ?thesis by (simp add: repr_finite_def Let_def z)
  next
    case 4
    then have "repr_finite m e = take (nat ?decpt) ?ds @ ''.'' @ drop (nat ?decpt) ?ds"
      by (simp add: repr_finite_def Let_def)
    moreover have "take (nat ?decpt) ?ds \<noteq> []" using 4 dn by simp
    moreover have "hd (take (nat ?decpt) ?ds) = hd ?ds" using 4 by (simp add: hd_take_digits)
    ultimately show ?thesis using digits_hd [of m] by (simp add: hd_append)
  next
    case 5
    then have "repr_finite m e = ?ds @ replicate (nat (?decpt - int (length ?ds))) CHR ''0'' @ ''.0''"
      by (simp add: repr_finite_def Let_def)
    then show ?thesis using digits_hd [of m] dn by (simp add: hd_append)
  qed
qed

lemma read_number_float:
  "read_number (str_float (Finite neg m e)) = Some (PyFloat (make_float neg m e))"
proof -
  from repr_finite_first [of m e] obtain c cs where
    r: "repr_finite m e = c # cs" and c: "is_digit c"
    by (cases "repr_finite m e") auto
  from c digit_not_mark have "c \<noteq> CHR ''-''" by blast
  then have "read_number (str_float (Finite neg m e)) = read_unsigned neg (repr_finite m e)"
    by (simp add: read_number_def r)
  with read_unsigned_repr [of neg m e] show ?thesis by simp
qed

lemma read_number_int: "read_number (str_int i) = Some (PyInt i)"
proof -
  have u: "read_unsigned neg (digits n) = Some (PyInt (if neg then - int n else int n))" for neg n
    using read_unsigned_int [OF digits_all_digit digits_nonempty, of neg n]
    by (simp add: digits_value)
  show ?thesis
  proof (cases "i < 0")
    case True
    then show ?thesis by (simp add: read_number_def str_int_def u)
  next
    case False
    obtain c ds where d: "digits (nat i) = c # ds"
      using digits_nonempty [of "nat i"] by (cases "digits (nat i)") auto
    with digits_hd [of "nat i"] digit_not_mark have "c \<noteq> CHR ''-''" by auto
    with False d u [of False "nat i"] show ?thesis
      by (simp add: read_number_def str_int_def)
  qed
qed

lemma str_int_numchars: "list_all is_numchar (str_int i)"
  using digits_all_digit [of "nat i"] digits_all_digit [of "nat (- i)"]
  by (auto simp add: str_int_def is_numchar_def list_all_iff)

lemma str_int_nonempty: "str_int i \<noteq> []"
  by (simp add: str_int_def digits_nonempty)

lemma str_float_numchars: "list_all is_numchar (str_float (Finite neg m e))"
  using repr_finite_numchars [of m e] by (simp add: is_numchar_def)

lemma str_float_nonempty: "str_float (Finite neg m e) \<noteq> []"
  using repr_finite_first [of m e] by simp

lemma str_num_supported:
  assumes "supported (Num n)"
  shows "str_num n \<noteq> []" and "list_all is_numchar (str_num n)"
    and "read_number (str_num n) = Some (normal_num n)"
proof -
  show "str_num n \<noteq> []"
  proof (cases n)
    case (PyInt i)
    then show ?thesis by (simp add: str_int_nonempty)
  next
    case (PyFloat f)
    with assms show ?thesis by (cases f) (simp_all add: str_float_nonempty del: str_float.simps)
  qed
  show "list_all is_numchar (str_num n)"
  proof (cases n)
    case (PyInt i)
    then show ?thesis by (simp add: str_int_numchars)
  next
    case (PyFloat f)
    with assms show ?thesis by (cases f) (simp_all add: str_float_numchars del: str_float.simps)
  qed
  show "read_number (str_num n) = Some (normal_num n)"
  proof (cases n)
    case (PyInt i)
    then show ?thesis by (simp add: read_number_int)
  next
    case (PyFloat f)
    with assms show ?thesis by (cases f) (simp_all add: read_number_float del: str_float.simps)
  qed
qed

lemma in_string_run:
  "CHR 0x22 \<notin> set t
   \<Longrightarrow> foldl lit_step (InStr acc buf) (t @ [CHR 0x22]) = After (acc @ [Str (buf @ t)])"
  by (induction t arbitrary: buf) auto

lemma in_number_run:
  "list_all is_numchar ds \<Longrightarrow> foldl lit_step (InNum acc buf) ds = InNum acc (buf @ ds)"
  by (induction ds arbitrary: buf) auto

lemma delimiter_not_numchar:
  "\<not> is_numchar CHR '',''" "\<not> is_numchar CHR '')''" "\<not> is_numchar CHR 0x22"
  by (simp_all add: is_numchar_def is_digit_def)

text \<open>One item followed by its delimiter, read from the state that expects an item.\<close>

lemma item_run:
  assumes "supported a" and "d = CHR '','' \<or> d = CHR '')''"
  shows "foldl lit_step (Next acc) (render_arg a @ [d]) = end_item (acc @ [normal a]) d"
proof (cases a)
  case (Str t)
  with assms(1) have q: "CHR 0x22 \<notin> set t" by simp
  have "foldl lit_step (Next acc) (render_arg a @ [d])
      = lit_step (foldl lit_step (InStr acc []) (t @ [CHR 0x22])) d"
    by (simp add: Str render_arg_def begin_item_def)
  also have "\<dots> = end_item (acc @ [normal a]) d"
    by (simp only: in_string_run [OF q]) (simp add: Str)
  finally show ?thesis .
next
  case (Num n)
  with assms(1) have sn: "supported (Num n)" by simp
  obtain c ds where s: "str_num n = c # ds"
    using str_num_supported(1) [OF sn] by (cases "str_num n") auto
  from str_num_supported(2) [OF sn] s have c: "is_numchar c" and ds: "list_all is_numchar ds"
    by simp_all
  from c delimiter_not_numchar(3) have "c \<noteq> CHR 0x22" by auto
  with c have b: "begin_item acc c = InNum acc [c]" by (simp add: begin_item_def)
  have "foldl lit_step (Next acc) (render_arg a @ [d])
      = lit_step (foldl lit_step (InNum acc [c]) ds) d"
    by (simp add: Num render_arg_def s b)
  also have "\<dots> = lit_step (InNum acc (str_num n)) d"
    by (simp add: in_number_run [OF ds] s)
  also have "\<dots> = end_item (acc @ [normal a]) d"
    using assms(2) delimiter_not_numchar by (auto simp add: str_num_supported(3) [OF sn] Num)
  finally show ?thesis .
qed

lemma items_run:
  "list_all supported (a # rest)
   \<Longrightarrow> foldl lit_step (Next acc) (join (map render_arg (a # rest)) @ '')'')
       = Done (acc @ map normal (a # rest))"
proof (induction rest arbitrary: a acc)
  case Nil
  then have "supported a" by simp
  from item_run [OF this, of "CHR '')''" acc] show ?case
    by (simp add: end_item_def)
next
  case (Cons b rest)
  then have a: "supported a" and r: "list_all supported (b # rest)" by simp_all
  have "foldl lit_step (Next acc) (join (map render_arg (a # b # rest)) @ '')'')
      = foldl lit_step (foldl lit_step (Next acc) (render_arg a @ [CHR '','']))
          (CHR '' '' # join (map render_arg (b # rest)) @ '')'')"
    by simp
  also have "\<dots> = foldl lit_step (Next (acc @ [normal a])) (join (map render_arg (b # rest)) @ '')'')"
    by (simp only: item_run [OF a disjI1 [OF refl]]) (simp add: end_item_def)
  also have "\<dots> = Done ((acc @ [normal a]) @ map normal (b # rest))"
    by (rule Cons.IH [OF r])
  finally show ?case by simp
qed

lemma render_arg_first:
  assumes "supported a"
  shows "\<exists>c cs. render_arg a = c # cs \<and> c \<noteq> CHR '')''"
proof (cases a)
  case (Str t)
  then show ?thesis by (simp add: render_arg_def)
next
  case (Num n)
  with assms have sn: "supported (Num n)" by simp
  obtain c ds where s: "str_num n = c # ds"
    using str_num_supported(1) [OF sn] by (cases "str_num n") auto
  with str_num_supported(2) [OF sn] delimiter_not_numchar(2) have "c \<noteq> CHR '')''" by auto
  with s show ?thesis by (simp add: Num render_arg_def)
qed

lemma join_first:
  "\<exists>t. join (x # xs) = x @ t"
  by (cases xs) auto

text \<open>
  C7 as the specification has it: every list of numbers and quote-free texts comes back.
  The float infinity is a number that \<open>parse_args\<close> accepts; it is rendered as the name
  \<open>inf\<close>, which is no decimal form of a number, and the text is not read back.
\<close>

theorem parse_args_inf_counterexample:
  "parse_args [Num (PyFloat (Inf False))] = ''(inf)''
   \<and> read_literal_args (parse_args [Num (PyFloat (Inf False))]) = None
   \<and> read_literal_args (parse_args [Num (PyFloat (Inf False))]) \<noteq> Some [Num (PyFloat (Inf False))]"
  by (simp add: parse_args_def render_arg_def read_literal_args_def begin_item_def
      is_numchar_def is_digit_def)

text \<open>
  C7, amended. For every list of ints, finite floats and texts without a double quote,
  reading the text that \<open>parse_args\<close> produces gives the list back, in order: the same
  texts, the same ints and the same floats, each float written without a trailing zero in
  its mantissa, so the very list when its floats are written so. In the produced text each
  text argument stands between double quotes as it is and each number in its decimal form,
  the items are joined by a comma and a space, and the whole is in parentheses.
\<close>

theorem parse_args_round_trip:
  assumes "list_all supported args"
  shows "read_literal_args (parse_args args) = Some (map normal args)
       \<and> (list_all written_normal args \<longrightarrow> read_literal_args (parse_args args) = Some args)"
proof -
  have main: "read_literal_args (parse_args args) = Some (map normal args)"
  proof (cases args)
    case Nil
    then show ?thesis by (simp add: read_literal_args_def parse_args_def)
  next
    case (Cons a rest)
    with assms have a: "supported a" by simp
    from render_arg_first [OF a] obtain c cs where
      r: "render_arg a = c # cs" and c: "c \<noteq> CHR '')''" by blast
    from join_first [of "render_arg a" "map render_arg rest"] r obtain t where
      j: "join (map render_arg (a # rest)) = c # t" by auto
    have "foldl lit_step Start (parse_args args)
        = foldl lit_step Open (join (map render_arg (a # rest)) @ '')'')"
      by (simp add: parse_args_def Cons)
    also have "\<dots> = foldl lit_step (Next []) (join (map render_arg (a # rest)) @ '')'')"
      using c by (simp only: j) simp
    also have "\<dots> = Done (map normal args)"
      using items_run [of a rest "[]"] assms by (simp add: Cons)
    finally show ?thesis by (simp add: read_literal_args_def)
  qed
  have "list_all written_normal args \<Longrightarrow> map normal args = args"
    by (induction args) (simp_all add: normal_written)
  with main show ?thesis by simp
qed

theorem parse_args_round_trip_witness:
  "list_all supported
     [Str ''abc'', Num (PyInt (- 12)), Num (PyFloat (Finite False 15 (- 1))),
      Num (PyFloat (Finite True 1 (- 5)))]
   \<and> list_all written_normal
     [Str ''abc'', Num (PyInt (- 12)), Num (PyFloat (Finite False 15 (- 1))),
      Num (PyFloat (Finite True 1 (- 5)))]
   \<and> parse_args
       [Str ''abc'', Num (PyInt (- 12)), Num (PyFloat (Finite False 15 (- 1))),
        Num (PyFloat (Finite True 1 (- 5)))]
       = ''(\"abc\", -12, 1.5, -1e-05)''
   \<and> read_literal_args ''(\"abc\", -12, 1.5, -1e-05)''
       = Some [Str ''abc'', Num (PyInt (- 12)), Num (PyFloat (Finite False 15 (- 1))),
               Num (PyFloat (Finite True 1 (- 5)))]"
proof -
  let ?args = "[Str ''abc'', Num (PyInt (- 12)), Num (PyFloat (Finite False 15 (- 1))),
      Num (PyFloat (Finite True 1 (- 5)))]"
  have s: "list_all supported ?args"
    by simp
  have w: "list_all written_normal ?args"
    by simp
  have p: "parse_args ?args = ''(\"abc\", -12, 1.5, -1e-05)''"
    by (simp add: parse_args_def render_arg_def str_int_def repr_finite_def exp_text_def
        digits.simps digit_char_def)
  from parse_args_round_trip [OF s] w have "read_literal_args (parse_args ?args) = Some ?args"
    by blast
  with s w p show ?thesis
    by simp
qed

end
